theory Spec2Isabelle
  imports Main "HOL-Library.Word"
begin

section \<open>JavaScript strings\<close>

text \<open>
  The program is \<^verbatim>\<open>src/api/orders.js\<close>, one request handler run by Node.
  A JavaScript string is a sequence of 16-bit code units. String literals of the source
  are ASCII and are written \<open>js ''...''\<close>.
\<close>

type_synonym jschar = "16 word"
type_synonym jsstring = "jschar list"

definition ch :: "char \<Rightarrow> jschar" where
  "ch c = of_nat (of_char c)"

definition js :: "string \<Rightarrow> jsstring" where
  "js s = map ch s"

definition is_digit :: "jschar \<Rightarrow> bool" where
  "is_digit c = (0x30 \<le> c \<and> c \<le> 0x39)"

definition digit_char :: "nat \<Rightarrow> jschar" where
  "digit_char d = of_nat (48 + d)"

text \<open>
  \<open>decimal n\<close> is what string concatenation and template literals make of a
  non-negative integer below \<open>10\<^sup>2\<^sup>1\<close> (\<^verbatim>\<open>Date.now()\<close>, \<^verbatim>\<open>res.status\<close>):
  its decimal digits.
\<close>

function decimal :: "nat \<Rightarrow> jsstring" where
  "decimal n = (if n < 10 then [digit_char n] else decimal (n div 10) @ [digit_char (n mod 10)])"
  by pat_completeness auto
termination
  by (relation "measure id") auto

declare decimal.simps [simp del]

text \<open>\<^verbatim>\<open>String.prototype.trim\<close>: white space and line terminators go, at both ends.\<close>

definition is_js_space :: "jschar \<Rightarrow> bool" where
  "is_js_space c =
     (c = 0x09 \<or> c = 0x0A \<or> c = 0x0B \<or> c = 0x0C \<or> c = 0x0D \<or> c = 0x20 \<or> c = 0xA0
      \<or> c = 0x1680 \<or> (0x2000 \<le> c \<and> c \<le> 0x200A) \<or> c = 0x2028 \<or> c = 0x2029
      \<or> c = 0x202F \<or> c = 0x205F \<or> c = 0x3000 \<or> c = 0xFEFF)"

definition trim :: "jsstring \<Rightarrow> jsstring" where
  "trim s = rev (dropWhile is_js_space (rev (dropWhile is_js_space s)))"

fun join_with :: "jsstring \<Rightarrow> jsstring list \<Rightarrow> jsstring" where
  "join_with sep [] = []"
| "join_with sep [s] = s"
| "join_with sep (s # t # ss) = s @ sep @ join_with sep (t # ss)"

section \<open>JavaScript values\<close>

text \<open>
  The values the handler meets: the request body, the parsed order, the JSON the document
  store returns, the store document. Numbers are IEEE doubles in JavaScript; the model
  leaves their type \<open>'n\<close> open and takes the operations on them from the runtime (below).
  An object is its own properties in enumeration order. An array is its elements and,
  because an array is an object too, the named properties assigned to it
  (\<^verbatim>\<open>data.orders = []\<close> on a document that is an array).
\<close>

datatype 'n jsval =
    JUndefined
  | JNull
  | JBool bool
  | JNum 'n
  | JStr jsstring
  | JArr "'n jsval list" "(jsstring \<times> 'n jsval) list"
  | JObj "(jsstring \<times> 'n jsval) list"

text \<open>
  Errors as values. \<open>Error m\<close> is an error object with message \<open>m\<close>
  (\<^verbatim>\<open>new Error(m)\<close>, or the error a rejected \<^verbatim>\<open>fetch\<close> carries); the other three
  are raised by the engine, with a message text of the engine's own.
\<close>

datatype js_error = Error jsstring | TypeError | SyntaxError | URIError

text \<open>
  What the model takes from the platform without looking inside: the conversions of
  numbers, the URL parser, percent-encoding, \<^verbatim>\<open>Buffer\<close>'s base64 and UTF-8 codecs,
  and the message texts of engine errors. \<open>None\<close> is a throw.
\<close>

record 'n runtime =
  number_of_literal :: "jsstring \<Rightarrow> 'n"
  number_to_string :: "'n \<Rightarrow> jsstring"
  number_is_finite :: "'n \<Rightarrow> bool"
  number_to_boolean :: "'n \<Rightarrow> bool"
  url_origin :: "jsstring \<Rightarrow> jsstring option"
  encodeURIComponent :: "jsstring \<Rightarrow> jsstring option"
  utf8_to_base64 :: "jsstring \<Rightarrow> jsstring"
  base64_to_utf8 :: "'n jsval \<Rightarrow> jsstring option"
  engine_message :: "js_error \<Rightarrow> jsstring"

fun err_message :: "'n runtime \<Rightarrow> js_error \<Rightarrow> jsstring" where
  "err_message rt (Error m) = m"
| "err_message rt e = engine_message rt e"

text \<open>ToBoolean: what \<^verbatim>\<open>!x\<close>, \<^verbatim>\<open>x || y\<close> and \<^verbatim>\<open>if (x)\<close> test.\<close>

fun truthy :: "'n runtime \<Rightarrow> 'n jsval \<Rightarrow> bool" where
  "truthy rt JUndefined = False"
| "truthy rt JNull = False"
| "truthy rt (JBool b) = b"
| "truthy rt (JNum n) = number_to_boolean rt n"
| "truthy rt (JStr s) = (s \<noteq> [])"
| "truthy rt (JArr xs ps) = True"
| "truthy rt (JObj ms) = True"

subsection \<open>Properties\<close>

text \<open>
  Own properties are enumerated with the array indices first, in ascending order, then
  the other keys in the order they were created. An array index is a canonical decimal
  numeral below \<open>2\<^sup>3\<^sup>2 - 1\<close>.
\<close>

definition decimal_value :: "jsstring \<Rightarrow> nat" where
  "decimal_value k = foldl (\<lambda>a c. 10 * a + (unat c - 48)) 0 k"

definition array_index :: "jsstring \<Rightarrow> nat option" where
  "array_index k =
     (if k \<noteq> [] \<and> list_all is_digit k \<and> (length k = 1 \<or> hd k \<noteq> 0x30)
         \<and> decimal_value k < 4294967295
      then Some (decimal_value k) else None)"

fun insert_index :: "nat \<Rightarrow> jsstring \<times> 'v \<Rightarrow> (jsstring \<times> 'v) list \<Rightarrow> (jsstring \<times> 'v) list" where
  "insert_index i kv [] = [kv]"
| "insert_index i kv (m # ms) =
     (case array_index (fst m) of
        Some j \<Rightarrow> if j < i then m # insert_index i kv ms else kv # m # ms
      | None \<Rightarrow> kv # m # ms)"

fun replace_prop :: "jsstring \<Rightarrow> 'v \<Rightarrow> (jsstring \<times> 'v) list \<Rightarrow> (jsstring \<times> 'v) list" where
  "replace_prop k v [] = []"
| "replace_prop k v (m # ms) = (if fst m = k then (k, v) # ms else m # replace_prop k v ms)"

definition define_prop :: "jsstring \<Rightarrow> 'v \<Rightarrow> (jsstring \<times> 'v) list \<Rightarrow> (jsstring \<times> 'v) list" where
  "define_prop k v ms =
     (if k \<in> fst ` set ms then replace_prop k v ms
      else case array_index k of
             None \<Rightarrow> ms @ [(k, v)]
           | Some i \<Rightarrow> insert_index i (k, v) ms)"

definition lookup :: "(jsstring \<times> 'n jsval) list \<Rightarrow> jsstring \<Rightarrow> 'n jsval" where
  "lookup ms k = (case map_of ms k of None \<Rightarrow> JUndefined | Some v \<Rightarrow> v)"

text \<open>
  \<open>get_prop v k\<close> is \<^verbatim>\<open>v.k\<close> and \<open>set_prop v k x\<close> is \<^verbatim>\<open>v.k = x\<close>, for the keys
  this program uses: \<^verbatim>\<open>fullName\<close>, \<^verbatim>\<open>phone\<close>, \<^verbatim>\<open>id\<close>, \<^verbatim>\<open>status\<close>, \<^verbatim>\<open>orders\<close>,
  \<^verbatim>\<open>content\<close>, \<^verbatim>\<open>sha\<close>. None of them is an array index, \<^verbatim>\<open>length\<close> or a property
  of a built-in prototype, so a read finds an own property or \<^verbatim>\<open>undefined\<close>.
  Reading a property of \<^verbatim>\<open>null\<close> or \<^verbatim>\<open>undefined\<close> throws a TypeError; so does, in
  a module (strict code), assigning a property to a primitive.
\<close>

fun get_prop :: "'n jsval \<Rightarrow> jsstring \<Rightarrow> js_error + 'n jsval" where
  "get_prop JUndefined k = Inl TypeError"
| "get_prop JNull k = Inl TypeError"
| "get_prop (JObj ms) k = Inr (lookup ms k)"
| "get_prop (JArr xs ps) k = Inr (lookup ps k)"
| "get_prop v k = Inr JUndefined"

fun set_prop :: "'n jsval \<Rightarrow> jsstring \<Rightarrow> 'n jsval \<Rightarrow> js_error + 'n jsval" where
  "set_prop (JObj ms) k x = Inr (JObj (define_prop k x ms))"
| "set_prop (JArr xs ps) k x = Inr (JArr xs (define_prop k x ps))"
| "set_prop v k x = Inl TypeError"

subsection \<open>ToString\<close>

text \<open>
  String concatenation converts its operand: a primitive to its text; an object through
  \<^verbatim>\<open>valueOf\<close> and \<^verbatim>\<open>toString\<close>. The values here hold no functions, so an own
  property \<^verbatim>\<open>toString\<close> hides the inherited method and the conversion throws;
  otherwise a plain object is \<^verbatim>\<open>[object Object]\<close> and an array is its elements
  joined by commas (\<^verbatim>\<open>null\<close> and \<^verbatim>\<open>undefined\<close> elements as nothing).
\<close>

fun collect :: "('e + 'a) list \<Rightarrow> 'e + 'a list" where
  "collect [] = Inr []"
| "collect (Inl e # rs) = Inl e"
| "collect (Inr x # rs) = (case collect rs of Inl e \<Rightarrow> Inl e | Inr xs \<Rightarrow> Inr (x # xs))"

fun to_string :: "'n runtime \<Rightarrow> 'n jsval \<Rightarrow> js_error + jsstring" where
  "to_string rt JUndefined = Inr (js ''undefined'')"
| "to_string rt JNull = Inr (js ''null'')"
| "to_string rt (JBool b) = Inr (if b then js ''true'' else js ''false'')"
| "to_string rt (JNum n) = Inr (number_to_string rt n)"
| "to_string rt (JStr s) = Inr s"
| "to_string rt (JObj ms) =
     (if js ''toString'' \<in> fst ` set ms then Inl TypeError else Inr (js ''[object Object]''))"
| "to_string rt (JArr xs ps) =
     (if js ''toString'' \<in> fst ` set ps then Inl TypeError
      else if js ''join'' \<in> fst ` set ps then Inr (js ''[object Array]'')
      else case collect (map (\<lambda>x. if x = JUndefined \<or> x = JNull then Inr [] else to_string rt x) xs) of
             Inl e \<Rightarrow> Inl e
           | Inr ss \<Rightarrow> Inr (join_with (js '','') ss))"

section \<open>JSON\<close>

subsection \<open>\<^verbatim>\<open>JSON.stringify\<close>\<close>

text \<open>
  QuoteJSONString: the seven short escapes, \<^verbatim>\<open>\u00XX\<close> for the other control
  characters, \<^verbatim>\<open>\uDXXX\<close> for a surrogate without its partner, every other code unit
  as it is.
\<close>

definition is_high_surrogate :: "jschar \<Rightarrow> bool" where
  "is_high_surrogate c = (0xD800 \<le> c \<and> c \<le> 0xDBFF)"

definition is_low_surrogate :: "jschar \<Rightarrow> bool" where
  "is_low_surrogate c = (0xDC00 \<le> c \<and> c \<le> 0xDFFF)"

definition hex_digit :: "nat \<Rightarrow> jschar" where
  "hex_digit d = (if d < 10 then of_nat (48 + d) else of_nat (87 + d))"

definition unicode_escape :: "jschar \<Rightarrow> jsstring" where
  "unicode_escape c =
     [0x5C, 0x75, hex_digit (unat c div 4096), hex_digit (unat c div 256 mod 16),
      hex_digit (unat c div 16 mod 16), hex_digit (unat c mod 16)]"

definition escape_unit :: "jschar \<Rightarrow> jsstring" where
  "escape_unit c =
     (if c = 0x08 then [0x5C, 0x62]
      else if c = 0x09 then [0x5C, 0x74]
      else if c = 0x0A then [0x5C, 0x6E]
      else if c = 0x0C then [0x5C, 0x66]
      else if c = 0x0D then [0x5C, 0x72]
      else if c = 0x22 then [0x5C, 0x22]
      else if c = 0x5C then [0x5C, 0x5C]
      else if c < 0x20 then unicode_escape c
      else [c])"

fun quote_units :: "jsstring \<Rightarrow> jsstring" where
  "quote_units [] = []"
| "quote_units [c] =
     (if is_high_surrogate c \<or> is_low_surrogate c then unicode_escape c else escape_unit c)"
| "quote_units (c # d # cs) =
     (if is_high_surrogate c then
        (if is_low_surrogate d then c # d # quote_units cs
         else unicode_escape c @ quote_units (d # cs))
      else if is_low_surrogate c then unicode_escape c @ quote_units (d # cs)
      else escape_unit c @ quote_units (d # cs))"

definition quote :: "jsstring \<Rightarrow> jsstring" where
  "quote s = 0x22 # quote_units s @ [0x22]"

text \<open>
  SerializeJSONProperty with the indentation unit \<open>gap\<close> and the current indentation
  \<open>ind\<close>. \<^verbatim>\<open>undefined\<close> has no text: a member with that value is left out, an
  array element with it prints as \<^verbatim>\<open>null\<close>. A number that is not finite prints as
  \<^verbatim>\<open>null\<close>. Of an array only the elements are printed, never its named properties.
\<close>

definition bracket :: "jschar \<Rightarrow> jschar \<Rightarrow> jsstring \<Rightarrow> jsstring \<Rightarrow> jsstring list \<Rightarrow> jsstring" where
  "bracket l r gap ind parts =
     (if parts = [] then [l, r]
      else if gap = [] then l # join_with [0x2C] parts @ [r]
      else l # 0x0A # (ind @ gap) @ join_with (0x2C # 0x0A # (ind @ gap)) parts
             @ 0x0A # ind @ [r])"

fun serialize :: "'n runtime \<Rightarrow> jsstring \<Rightarrow> jsstring \<Rightarrow> 'n jsval \<Rightarrow> jsstring option" where
  "serialize rt gap ind JUndefined = None"
| "serialize rt gap ind JNull = Some (js ''null'')"
| "serialize rt gap ind (JBool b) = Some (if b then js ''true'' else js ''false'')"
| "serialize rt gap ind (JNum n) =
     Some (if number_is_finite rt n then number_to_string rt n else js ''null'')"
| "serialize rt gap ind (JStr s) = Some (quote s)"
| "serialize rt gap ind (JArr xs ps) =
     Some (bracket 0x5B 0x5D gap ind
       (map (\<lambda>x. case serialize rt gap (ind @ gap) x of None \<Rightarrow> js ''null'' | Some s \<Rightarrow> s) xs))"
| "serialize rt gap ind (JObj ms) =
     Some (bracket 0x7B 0x7D gap ind
       (concat (map (\<lambda>m. case serialize rt gap (ind @ gap) (snd m) of
                           None \<Rightarrow> []
                         | Some s \<Rightarrow> [quote (fst m) @ (if gap = [] then [0x3A] else [0x3A, 0x20]) @ s])
                    ms)))"

text \<open>\<^verbatim>\<open>JSON.stringify(v, null, space)\<close> for a number \<open>space\<close> of at most 10; \<open>None\<close> is \<^verbatim>\<open>undefined\<close>.\<close>

definition JSON_stringify :: "'n runtime \<Rightarrow> 'n jsval \<Rightarrow> nat \<Rightarrow> jsstring option" where
  "JSON_stringify rt v space = serialize rt (replicate space 0x20) [] v"

subsection \<open>\<^verbatim>\<open>JSON.parse\<close>\<close>

text \<open>
  The JSON grammar (ECMA-404), read in two passes: the text is cut into tokens, and
  the tokens are read by a pushdown automaton. The value of a number token is the
  runtime's.
\<close>

definition is_json_ws :: "jschar \<Rightarrow> bool" where
  "is_json_ws c = (c = 0x20 \<or> c = 0x09 \<or> c = 0x0A \<or> c = 0x0D)"

definition simple_escape :: "jschar \<Rightarrow> jschar option" where
  "simple_escape e =
     (if e = 0x22 then Some 0x22
      else if e = 0x5C then Some 0x5C
      else if e = 0x2F then Some 0x2F
      else if e = 0x62 then Some 0x08
      else if e = 0x66 then Some 0x0C
      else if e = 0x6E then Some 0x0A
      else if e = 0x72 then Some 0x0D
      else if e = 0x74 then Some 0x09
      else None)"

definition hex_value :: "jschar \<Rightarrow> nat option" where
  "hex_value c =
     (if 0x30 \<le> c \<and> c \<le> 0x39 then Some (unat c - 48)
      else if 0x61 \<le> c \<and> c \<le> 0x66 then Some (unat c - 87)
      else if 0x41 \<le> c \<and> c \<le> 0x46 then Some (unat c - 55)
      else None)"

definition hex4 :: "jschar \<Rightarrow> jschar \<Rightarrow> jschar \<Rightarrow> jschar \<Rightarrow> jschar option" where
  "hex4 a b c d =
     (case (hex_value a, hex_value b, hex_value c, hex_value d) of
        (Some w, Some x, Some y, Some z) \<Rightarrow> Some (of_nat (((w * 16 + x) * 16 + y) * 16 + z))
      | _ \<Rightarrow> None)"

definition prepend :: "jschar \<Rightarrow> (jsstring \<times> jsstring) option \<Rightarrow> (jsstring \<times> jsstring) option" where
  "prepend c r = (case r of None \<Rightarrow> None | Some (s, rest) \<Rightarrow> Some (c # s, rest))"

text \<open>
  \<open>lex_string\<close> reads a string token from behind its opening quote: the decoded string
  and the text after the closing quote.
\<close>

fun lex_string :: "jsstring \<Rightarrow> (jsstring \<times> jsstring) option" where
  "lex_string [] = None"
| "lex_string (c # cs) =
     (if c = 0x22 then Some ([], cs)
      else if c = 0x5C then
        (case cs of
           [] \<Rightarrow> None
         | e # es \<Rightarrow>
             if e = 0x75 then
               (case es of
                  h1 # h2 # h3 # h4 # rest \<Rightarrow>
                    (case hex4 h1 h2 h3 h4 of
                       None \<Rightarrow> None
                     | Some u \<Rightarrow> prepend u (lex_string rest))
                | _ \<Rightarrow> None)
             else
               (case simple_escape e of
                  None \<Rightarrow> None
                | Some u \<Rightarrow> prepend u (lex_string es)))
      else if c < 0x20 then None
      else prepend c (lex_string cs))"

definition is_number_char :: "jschar \<Rightarrow> bool" where
  "is_number_char c = (is_digit c \<or> c = 0x2D \<or> c = 0x2B \<or> c = 0x2E \<or> c = 0x65 \<or> c = 0x45)"

definition json_exponent :: "jsstring \<Rightarrow> bool" where
  "json_exponent s =
     (case s of
        [] \<Rightarrow> True
      | e # r \<Rightarrow>
          (e = 0x65 \<or> e = 0x45) \<and>
          (let ds = (case r of [] \<Rightarrow> [] | g # r' \<Rightarrow> if g = 0x2B \<or> g = 0x2D then r' else r)
           in ds \<noteq> [] \<and> list_all is_digit ds))"

definition json_fraction :: "jsstring \<Rightarrow> bool" where
  "json_fraction s =
     (case s of
        [] \<Rightarrow> True
      | p # r \<Rightarrow>
          if p = 0x2E then takeWhile is_digit r \<noteq> [] \<and> json_exponent (dropWhile is_digit r)
          else json_exponent s)"

definition json_integer :: "jsstring \<Rightarrow> bool" where
  "json_integer s =
     (case s of
        [] \<Rightarrow> False
      | d # r \<Rightarrow>
          if d = 0x30 then json_fraction r
          else is_digit d \<and> json_fraction (dropWhile is_digit r))"

definition json_number :: "jsstring \<Rightarrow> bool" where
  "json_number s = (case s of [] \<Rightarrow> False | m # r \<Rightarrow> if m = 0x2D then json_integer r else json_integer s)"

datatype token =
    TLBrace | TRBrace | TLBracket | TRBracket | TColon | TComma
  | TString jsstring | TNumber jsstring | TTrue | TFalse | TNull

definition cons_token :: "token \<Rightarrow> token list option \<Rightarrow> token list option" where
  "cons_token t r = map_option ((#) t) r"

lemma lex_string_shorter: "lex_string cs = Some (s, rest) \<Longrightarrow> length rest < length cs"
proof (induction cs arbitrary: s rule: lex_string.induct)
  case 1
  then show ?case by simp
next
  case (2 c cs)
  show ?case
    using "2.prems" "2.IH"
    by (auto simp: prepend_def split: if_splits list.splits option.splits) force+
qed

function tokens :: "jsstring \<Rightarrow> token list option" where
  "tokens [] = Some []"
| "tokens (c # cs) =
     (if is_json_ws c then tokens cs
      else if c = 0x7B then cons_token TLBrace (tokens cs)
      else if c = 0x7D then cons_token TRBrace (tokens cs)
      else if c = 0x5B then cons_token TLBracket (tokens cs)
      else if c = 0x5D then cons_token TRBracket (tokens cs)
      else if c = 0x3A then cons_token TColon (tokens cs)
      else if c = 0x2C then cons_token TComma (tokens cs)
      else if c = 0x22 then
        (case lex_string cs of
           None \<Rightarrow> None
         | Some (s, rest) \<Rightarrow> cons_token (TString s) (tokens rest))
      else if is_number_char c then
        (if json_number (c # takeWhile is_number_char cs)
         then cons_token (TNumber (c # takeWhile is_number_char cs))
                (tokens (dropWhile is_number_char cs))
         else None)
      else if take 4 (c # cs) = js ''true'' then cons_token TTrue (tokens (drop 3 cs))
      else if take 5 (c # cs) = js ''false'' then cons_token TFalse (tokens (drop 4 cs))
      else if take 4 (c # cs) = js ''null'' then cons_token TNull (tokens (drop 3 cs))
      else None)"
  by pat_completeness auto
termination
proof (relation "measure length")
  fix c cs x2 x y
  assume "lex_string cs = Some x2" "(x, y) = x2"
  then show "(y, c # cs) \<in> measure length"
    using lex_string_shorter [of cs x y] by simp
qed (auto intro: le_imp_less_Suc length_dropWhile_le)

datatype 'n frame =
    InArray "'n jsval list"
  | InObject "(jsstring \<times> 'n jsval) list"
  | InMember "(jsstring \<times> 'n jsval) list" jsstring

datatype 'n pstate = WantValue | WantValueOrClose | WantKeyOrClose | WantKey | WantColon | Have "'n jsval"

definition start_value :: "'n runtime \<Rightarrow> 'n frame list \<Rightarrow> token \<Rightarrow> ('n frame list \<times> 'n pstate) option" where
  "start_value rt st t =
     (case t of
        TLBrace \<Rightarrow> Some (InObject [] # st, WantKeyOrClose)
      | TLBracket \<Rightarrow> Some (InArray [] # st, WantValueOrClose)
      | TString s \<Rightarrow> Some (st, Have (JStr s))
      | TNumber l \<Rightarrow> Some (st, Have (JNum (number_of_literal rt l)))
      | TTrue \<Rightarrow> Some (st, Have (JBool True))
      | TFalse \<Rightarrow> Some (st, Have (JBool False))
      | TNull \<Rightarrow> Some (st, Have JNull)
      | _ \<Rightarrow> None)"

text \<open>
  One token of input. The stack holds the arrays and objects that are open; a member of
  an object is created when its value is complete, so a repeated key keeps its first
  place and its last value.
\<close>

definition parse_step ::
  "'n runtime \<Rightarrow> 'n frame list \<Rightarrow> 'n pstate \<Rightarrow> token \<Rightarrow> ('n frame list \<times> 'n pstate) option" where
  "parse_step rt st s t =
     (case s of
        WantValue \<Rightarrow> start_value rt st t
      | WantValueOrClose \<Rightarrow>
          (if t = TRBracket then
             (case st of InArray xs # st' \<Rightarrow> Some (st', Have (JArr xs [])) | _ \<Rightarrow> None)
           else start_value rt st t)
      | WantKeyOrClose \<Rightarrow>
          (case st of
             InObject ms # st' \<Rightarrow>
               (case t of
                  TString k \<Rightarrow> Some (InMember ms k # st', WantColon)
                | TRBrace \<Rightarrow> Some (st', Have (JObj ms))
                | _ \<Rightarrow> None)
           | _ \<Rightarrow> None)
      | WantKey \<Rightarrow>
          (case st of
             InObject ms # st' \<Rightarrow>
               (case t of TString k \<Rightarrow> Some (InMember ms k # st', WantColon) | _ \<Rightarrow> None)
           | _ \<Rightarrow> None)
      | WantColon \<Rightarrow> (if t = TColon then Some (st, WantValue) else None)
      | Have v \<Rightarrow>
          (case st of
             InArray xs # st' \<Rightarrow>
               (case t of
                  TComma \<Rightarrow> Some (InArray (xs @ [v]) # st', WantValue)
                | TRBracket \<Rightarrow> Some (st', Have (JArr (xs @ [v]) []))
                | _ \<Rightarrow> None)
           | InMember ms k # st' \<Rightarrow>
               (case t of
                  TComma \<Rightarrow> Some (InObject (define_prop k v ms) # st', WantKey)
                | TRBrace \<Rightarrow> Some (st', Have (JObj (define_prop k v ms)))
                | _ \<Rightarrow> None)
           | _ \<Rightarrow> None))"

fun parse_tokens :: "'n runtime \<Rightarrow> 'n frame list \<Rightarrow> 'n pstate \<Rightarrow> token list \<Rightarrow> 'n jsval option" where
  "parse_tokens rt st s [] = (case (st, s) of ([], Have v) \<Rightarrow> Some v | _ \<Rightarrow> None)"
| "parse_tokens rt st s (t # ts) =
     (case parse_step rt st s t of
        None \<Rightarrow> None
      | Some (st', s') \<Rightarrow> parse_tokens rt st' s' ts)"

text \<open>\<^verbatim>\<open>JSON.parse(text)\<close> for a string \<open>text\<close>; text that is not JSON is a SyntaxError.\<close>

definition JSON_parse :: "'n runtime \<Rightarrow> jsstring \<Rightarrow> js_error + 'n jsval" where
  "JSON_parse rt text =
     (case tokens text of
        None \<Rightarrow> Inl SyntaxError
      | Some ts \<Rightarrow>
          (case parse_tokens rt [] WantValue ts of
             None \<Rightarrow> Inl SyntaxError
           | Some v \<Rightarrow> Inr v))"

section \<open>The world of the handler\<close>

text \<open>
  A request as the handler reads it: the method, the headers by name, the body.
  \<^verbatim>\<open>process.env\<close> is a partial map from names to strings. An absent header or
  variable is \<^verbatim>\<open>undefined\<close> (\<open>None\<close>).
\<close>

record 'n request =
  req_method :: jsstring
  req_headers :: "jsstring \<Rightarrow> jsstring option"
  req_body :: "'n jsval"

record 'n response =
  status_code :: nat
  headers_sent :: "(jsstring \<times> jsstring) list"
  body_sent :: "'n jsval option"

text \<open>
  What the handler does is a response, or an exception that leaves it (the promise it
  returns is rejected and the handler has written no response).
\<close>

datatype 'n outcome = Responded "'n response" | Uncaught js_error

text \<open>
  \<^verbatim>\<open>fetch\<close>: the document store is any state machine \<open>'s \<Rightarrow> fetch_request \<Rightarrow>
  fetch_result \<times> 's\<close>. A call is rejected (a network failure, with the error's message) or
  answered; of the answer the code reads \<^verbatim>\<open>ok\<close>, \<^verbatim>\<open>status\<close> and the body text.
  The world records every call made with its result, in order, and the lines written
  to the console.
\<close>

record fetch_request =
  fetch_method :: jsstring
  fetch_url :: jsstring
  fetch_headers :: "(jsstring \<times> jsstring) list"
  fetch_body :: "jsstring option"

record fetch_response =
  res_ok :: bool
  res_status :: nat
  res_text :: jsstring

datatype fetch_result = Rejected jsstring | Fetched fetch_response

record 's world =
  calls :: "(fetch_request \<times> fetch_result) list"
  store :: 's
  console :: "jsstring list"

definition do_fetch ::
  "('s \<Rightarrow> fetch_request \<Rightarrow> fetch_result \<times> 's) \<Rightarrow> fetch_request \<Rightarrow> 's world \<Rightarrow> fetch_result \<times> 's world" where
  "do_fetch fetch rq w =
     (case fetch (store w) rq of
        (r, s') \<Rightarrow> (r, w\<lparr>calls := calls w @ [(rq, r)], store := s'\<rparr>))"

section \<open>The program\<close>

definition GITHUB_API :: jsstring where
  "GITHUB_API = js ''https://api.github.com''"

definition STORE_DATA_PATH :: jsstring where
  "STORE_DATA_PATH = js ''data/store-data.json''"

definition corsHeaders :: "jsstring \<Rightarrow> (jsstring \<times> jsstring) list" where
  "corsHeaders origin =
     (let allow = (if origin = [] then js ''*'' else origin) in
      [(js ''Access-Control-Allow-Origin'', allow),
       (js ''Access-Control-Allow-Methods'', js ''GET, POST, OPTIONS''),
       (js ''Access-Control-Allow-Headers'', js ''Content-Type''),
       (js ''Access-Control-Max-Age'', js ''86400'')])"

text \<open>The path of the document in the store's API, every part percent-encoded.\<close>

definition contents_url :: "'n runtime \<Rightarrow> jsstring \<Rightarrow> jsstring \<Rightarrow> jsstring \<Rightarrow> jsstring option" where
  "contents_url rt owner repo path =
     (case encodeURIComponent rt owner of
        None \<Rightarrow> None
      | Some ow \<Rightarrow>
          (case encodeURIComponent rt repo of
             None \<Rightarrow> None
           | Some r \<Rightarrow>
               (case encodeURIComponent rt path of
                  None \<Rightarrow> None
                | Some p \<Rightarrow>
                    Some (GITHUB_API @ js ''/repos/'' @ ow @ js ''/'' @ r @ js ''/contents/'' @ p))))"

definition getFile ::
  "'n runtime \<Rightarrow> ('s \<Rightarrow> fetch_request \<Rightarrow> fetch_result \<times> 's) \<Rightarrow> jsstring \<Rightarrow> jsstring \<Rightarrow> jsstring
     \<Rightarrow> jsstring \<Rightarrow> jsstring \<Rightarrow> 's world \<Rightarrow> (js_error + 'n jsval) \<times> 's world" where
  "getFile rt fetch owner repo path branch token w =
     (case contents_url rt owner repo path of
        None \<Rightarrow> (Inl URIError, w)
      | Some base \<Rightarrow>
          (case encodeURIComponent rt branch of
             None \<Rightarrow> (Inl URIError, w)
           | Some b \<Rightarrow>
               (case do_fetch fetch
                       \<lparr>fetch_method = js ''GET'',
                        fetch_url = base @ js ''?ref='' @ b,
                        fetch_headers =
                          [(js ''Accept'', js ''application/vnd.github+json''),
                           (js ''Authorization'', js ''Bearer '' @ token)],
                        fetch_body = None\<rparr> w of
                  (Rejected m, w') \<Rightarrow> (Inl (Error m), w')
                | (Fetched res, w') \<Rightarrow>
                    if \<not> res_ok res then
                      (Inl (Error (js ''GitHub GET failed: '' @ decimal (res_status res)
                                   @ js '' '' @ res_text res)), w')
                    else (JSON_parse rt (res_text res), w'))))"

definition putFile ::
  "'n runtime \<Rightarrow> ('s \<Rightarrow> fetch_request \<Rightarrow> fetch_result \<times> 's) \<Rightarrow> jsstring \<Rightarrow> jsstring \<Rightarrow> jsstring
     \<Rightarrow> jsstring option \<Rightarrow> 'n jsval \<Rightarrow> jsstring \<Rightarrow> jsstring \<Rightarrow> jsstring \<Rightarrow> 's world
     \<Rightarrow> (js_error + 'n jsval) \<times> 's world" where
  "putFile rt fetch owner repo path content sha branch token message w =
     (case contents_url rt owner repo path of
        None \<Rightarrow> (Inl URIError, w)
      | Some url \<Rightarrow>
          (case content of
             None \<Rightarrow> (Inl TypeError, w)
           | Some text \<Rightarrow>
               (let body0 =
                      [(js ''message'',
                          JStr (if message = [] then js ''Add order via Orders API'' else message)),
                       (js ''content'', JStr (utf8_to_base64 rt text)),
                       (js ''branch'', JStr branch)];
                    body = (if truthy rt sha then define_prop (js ''sha'') sha body0 else body0)
                in
                case do_fetch fetch
                       \<lparr>fetch_method = js ''PUT'',
                        fetch_url = url,
                        fetch_headers =
                          [(js ''Accept'', js ''application/vnd.github+json''),
                           (js ''Authorization'', js ''Bearer '' @ token),
                           (js ''Content-Type'', js ''application/json'')],
                        fetch_body = JSON_stringify rt (JObj body) 0\<rparr> w of
                  (Rejected m, w') \<Rightarrow> (Inl (Error m), w')
                | (Fetched res, w') \<Rightarrow>
                    if \<not> res_ok res then
                      (Inl (Error (js ''GitHub PUT failed: '' @ decimal (res_status res)
                                   @ js '' '' @ res_text res)), w')
                    else (JSON_parse rt (res_text res), w'))))"

subsection \<open>The steps of the handler\<close>

text \<open>
  Line 54. The conditional operator binds weaker than \<^verbatim>\<open>||\<close>, so the line reads
  \<^verbatim>\<open>(origin || Referer) ? new URL(Referer || 'https://example.com').origin : '*'\<close>.
  \<^verbatim>\<open>new URL\<close> throws a TypeError on a string that is no URL; the origin of the
  literal \<^verbatim>\<open>https://example.com\<close> is that literal.
\<close>

definition string_truthy :: "jsstring option \<Rightarrow> bool" where
  "string_truthy h = (case h of None \<Rightarrow> False | Some s \<Rightarrow> s \<noteq> [])"

definition or_default :: "jsstring option \<Rightarrow> jsstring \<Rightarrow> jsstring" where
  "or_default h d = (case h of None \<Rightarrow> d | Some s \<Rightarrow> if s = [] then d else s)"

definition new_URL_origin :: "'n runtime \<Rightarrow> jsstring \<Rightarrow> js_error + jsstring" where
  "new_URL_origin rt u =
     (if u = js ''https://example.com'' then Inr (js ''https://example.com'')
      else case url_origin rt u of None \<Rightarrow> Inl TypeError | Some x \<Rightarrow> Inr x)"

definition request_origin :: "'n runtime \<Rightarrow> (jsstring \<Rightarrow> jsstring option) \<Rightarrow> js_error + jsstring" where
  "request_origin rt headers =
     (if string_truthy (headers (js ''origin'')) \<or> string_truthy (headers (js ''Referer''))
      then new_URL_origin rt (or_default (headers (js ''Referer'')) (js ''https://example.com''))
      else Inr (js ''*''))"

text \<open>Line 82: an object (an array too) is taken as it is; anything else goes through \<^verbatim>\<open>JSON.parse\<close>,
  which converts its argument to a string first.\<close>

fun is_object :: "'n jsval \<Rightarrow> bool" where
  "is_object (JObj ms) = True"
| "is_object (JArr xs ps) = True"
| "is_object v = False"

definition parse_body :: "'n runtime \<Rightarrow> 'n jsval \<Rightarrow> js_error + 'n jsval" where
  "parse_body rt body =
     (if is_object body then Inr body
      else if truthy rt body then
        (case to_string rt body of Inl e \<Rightarrow> Inl e | Inr s \<Rightarrow> JSON_parse rt s)
      else JSON_parse rt (js ''{}''))"

text \<open>Line 89, the condition of the rejection: \<^verbatim>\<open>!order.fullName && !order.phone\<close>.\<close>

definition lacks_name_and_phone :: "'n runtime \<Rightarrow> 'n jsval \<Rightarrow> js_error + bool" where
  "lacks_name_and_phone rt order =
     (case get_prop order (js ''fullName'') of
        Inl e \<Rightarrow> Inl e
      | Inr n \<Rightarrow>
          if truthy rt n then Inr False
          else (case get_prop order (js ''phone'') of
                  Inl e \<Rightarrow> Inl e
                | Inr p \<Rightarrow> Inr (\<not> truthy rt p)))"

text \<open>Lines 95 and 96; \<open>now\<close> is what \<^verbatim>\<open>Date.now()\<close> returns, milliseconds since the epoch.\<close>

definition normalize_order :: "'n runtime \<Rightarrow> nat \<Rightarrow> 'n jsval \<Rightarrow> js_error + 'n jsval" where
  "normalize_order rt now order =
     (case get_prop order (js ''id'') of
        Inl e \<Rightarrow> Inl e
      | Inr i \<Rightarrow>
          (case set_prop order (js ''id'') (if truthy rt i then i else JStr (js ''ord-'' @ decimal now)) of
             Inl e \<Rightarrow> Inl e
           | Inr order1 \<Rightarrow>
               (case get_prop order1 (js ''status'') of
                  Inl e \<Rightarrow> Inl e
                | Inr s \<Rightarrow>
                    set_prop order1 (js ''status'') (if truthy rt s then s else JStr (js ''pending'')))))"

text \<open>Lines 102 and 103: \<^verbatim>\<open>orders\<close> becomes an array if it is none, and the order goes in front.\<close>

fun is_array :: "'n jsval \<Rightarrow> bool" where
  "is_array (JArr xs ps) = True"
| "is_array v = False"

fun unshift :: "'n jsval \<Rightarrow> 'n jsval \<Rightarrow> 'n jsval" where
  "unshift x (JArr xs ps) = JArr (x # xs) ps"
| "unshift x v = v"

definition add_order :: "'n jsval \<Rightarrow> 'n jsval \<Rightarrow> js_error + 'n jsval" where
  "add_order data order =
     (case get_prop data (js ''orders'') of
        Inl e \<Rightarrow> Inl e
      | Inr os \<Rightarrow>
          (case (if \<not> is_array os then set_prop data (js ''orders'') (JArr [] []) else Inr data) of
             Inl e \<Rightarrow> Inl e
           | Inr data1 \<Rightarrow>
               (case get_prop data1 (js ''orders'') of
                  Inl e \<Rightarrow> Inl e
                | Inr os1 \<Rightarrow> set_prop data1 (js ''orders'') (unshift order os1))))"

text \<open>
  Lines 101 to 104: the text of the document as fetched, to the text of the document
  with the order added (\<open>None\<close> where \<^verbatim>\<open>JSON.stringify\<close> returns \<^verbatim>\<open>undefined\<close>).
\<close>

definition update_document :: "'n runtime \<Rightarrow> jsstring \<Rightarrow> 'n jsval \<Rightarrow> js_error + jsstring option" where
  "update_document rt content order =
     (case JSON_parse rt content of
        Inl e \<Rightarrow> Inl e
      | Inr data \<Rightarrow>
          (case add_order data order of
             Inl e \<Rightarrow> Inl e
           | Inr data' \<Rightarrow> Inr (JSON_stringify rt data' 2)))"

text \<open>
  Lines 99 to 105, the body of the \<^verbatim>\<open>try\<close> up to the write: the result is the error
  thrown or the normalized order's \<^verbatim>\<open>id\<close>.
\<close>

definition save_order ::
  "'n runtime \<Rightarrow> ('s \<Rightarrow> fetch_request \<Rightarrow> fetch_result \<times> 's) \<Rightarrow> jsstring \<Rightarrow> jsstring \<Rightarrow> jsstring
     \<Rightarrow> jsstring \<Rightarrow> 'n jsval \<Rightarrow> 's world \<Rightarrow> (js_error + 'n jsval) \<times> 's world" where
  "save_order rt fetch owner repo branch token order w =
     (case getFile rt fetch owner repo STORE_DATA_PATH branch token w of
        (Inl e, w1) \<Rightarrow> (Inl e, w1)
      | (Inr file, w1) \<Rightarrow>
          (case get_prop file (js ''content'') of
             Inl e \<Rightarrow> (Inl e, w1)
           | Inr c \<Rightarrow>
               (case base64_to_utf8 rt c of
                  None \<Rightarrow> (Inl TypeError, w1)
                | Some content \<Rightarrow>
                    (case update_document rt content order of
                       Inl e \<Rightarrow> (Inl e, w1)
                     | Inr newContent \<Rightarrow>
                         (case get_prop file (js ''sha'') of
                            Inl e \<Rightarrow> (Inl e, w1)
                          | Inr sha \<Rightarrow>
                              (case get_prop order (js ''id'') of
                                 Inl e \<Rightarrow> (Inl e, w1)
                               | Inr i \<Rightarrow>
                                   (case to_string rt i of
                                      Inl e \<Rightarrow> (Inl e, w1)
                                    | Inr istr \<Rightarrow>
                                        (case putFile rt fetch owner repo STORE_DATA_PATH newContent
                                                sha branch token (js ''Add order '' @ istr) w1 of
                                           (Inl e, w2) \<Rightarrow> (Inl e, w2)
                                         | (Inr r, w2) \<Rightarrow> (Inr i, w2)))))))))"

text \<open>Line 73: the three required variables are set and not empty.\<close>

definition configured :: "(jsstring \<Rightarrow> jsstring option) \<Rightarrow> bool" where
  "configured env =
     (string_truthy (env (js ''GITHUB_TOKEN'')) \<and> string_truthy (env (js ''GITHUB_OWNER''))
      \<and> string_truthy (env (js ''GITHUB_REPO'')))"

text \<open>Line 71: \<^verbatim>\<open>(process.env.GITHUB_BRANCH || 'main').trim() || 'main'\<close>.\<close>

definition target_branch :: "(jsstring \<Rightarrow> jsstring option) \<Rightarrow> jsstring" where
  "target_branch env =
     (let b = trim (or_default (env (js ''GITHUB_BRANCH'')) (js ''main''))
      in if b = [] then js ''main'' else b)"

definition json_response :: "nat \<Rightarrow> jsstring \<Rightarrow> 'n jsval \<Rightarrow> 'n response" where
  "json_response code origin body =
     \<lparr>status_code = code, headers_sent = corsHeaders origin, body_sent = Some body\<rparr>"

definition error_body :: "string \<Rightarrow> 'n jsval" where
  "error_body m = JObj [(js ''error'', JStr (js m))]"

text \<open>
  The handler (lines 53 to 113). \<open>env\<close> is \<^verbatim>\<open>process.env\<close>, \<open>fetch\<close> the document
  store, \<open>now\<close> the clock, \<open>s\<close> the state of the store when the request arrives.
  The headers of the response are those the handler sets itself.
\<close>

definition handler ::
  "'n runtime \<Rightarrow> (jsstring \<Rightarrow> jsstring option) \<Rightarrow> ('s \<Rightarrow> fetch_request \<Rightarrow> fetch_result \<times> 's)
     \<Rightarrow> nat \<Rightarrow> 'n request \<Rightarrow> 's \<Rightarrow> 'n outcome \<times> 's world" where
  "handler rt env fetch now req s =
     (let w = \<lparr>calls = [], store = s, console = []\<rparr> in
      case request_origin rt (req_headers req) of
        Inl e \<Rightarrow> (Uncaught e, w)
      | Inr origin \<Rightarrow>
          if req_method req = js ''OPTIONS'' then
            (Responded \<lparr>status_code = 204, headers_sent = corsHeaders origin, body_sent = None\<rparr>, w)
          else if req_method req \<noteq> js ''POST'' then
            (Responded (json_response 405 origin (error_body ''Method not allowed'')), w)
          else
            let token = or_default (env (js ''GITHUB_TOKEN'')) [];
                owner = or_default (env (js ''GITHUB_OWNER'')) [];
                repo = or_default (env (js ''GITHUB_REPO'')) [];
                branch = target_branch env
            in
            if \<not> configured env then
              (Responded (json_response 500 origin
                            (error_body ''Orders API not configured (missing env)'')),
               w\<lparr>console := [js ''Orders API: missing GITHUB_TOKEN, GITHUB_OWNER, or GITHUB_REPO'']\<rparr>)
            else
              (case parse_body rt (req_body req) of
                Inl e \<Rightarrow> (Responded (json_response 400 origin (error_body ''Invalid JSON body'')), w)
              | Inr order \<Rightarrow>
                  (case lacks_name_and_phone rt order of
                     Inl e \<Rightarrow> (Uncaught e, w)
                   | Inr True \<Rightarrow>
                       (Responded (json_response 400 origin
                                     (error_body ''Order must include fullName and phone'')), w)
                   | Inr False \<Rightarrow>
                       (case normalize_order rt now order of
                          Inl e \<Rightarrow> (Uncaught e, w)
                        | Inr order' \<Rightarrow>
                            (case save_order rt fetch owner repo branch token order' w of
                               (Inr i, w') \<Rightarrow>
                                 (Responded (json_response 200 origin
                                               (JObj [(js ''ok'', JBool True), (js ''id'', i)])), w')
                             | (Inl err, w') \<Rightarrow>
                                 (Responded (json_response 500 origin
                                               (JObj [(js ''error'', JStr (js ''Failed to save order'')),
                                                      (js ''detail'', JStr (err_message rt err))])),
                                  w'\<lparr>console := console w' @ [js ''Orders API error: '' @ err_message rt err]\<rparr>))))))"

section \<open>Values that survive serialization\<close>

text \<open>
  The members of a JavaScript object are always in enumeration order: no key twice, the
  array indices first and ascending, no array index after another key.
\<close>

fun key_order :: "jsstring list \<Rightarrow> bool" where
  "key_order [] = True"
| "key_order [k] = True"
| "key_order (k # k' # ks) =
     ((case array_index k' of
         None \<Rightarrow> True
       | Some j \<Rightarrow> (case array_index k of None \<Rightarrow> False | Some i \<Rightarrow> i < j))
      \<and> key_order (k' # ks))"

definition canonical_keys :: "jsstring list \<Rightarrow> bool" where
  "canonical_keys ks = (distinct ks \<and> key_order ks)"

text \<open>
  A number survives \<^verbatim>\<open>JSON.stringify\<close> and \<^verbatim>\<open>JSON.parse\<close> when it is finite, its text
  is a JSON number, and reading that text gives the number back (every finite double but
  \<open>-0\<close>). A value is JSON-safe when it holds no \<^verbatim>\<open>undefined\<close>, its numbers survive, its
  arrays have no named properties and its objects are in enumeration order: what
  \<^verbatim>\<open>JSON.parse\<close> returns, but for the numbers.
\<close>

definition number_survives :: "'n runtime \<Rightarrow> 'n \<Rightarrow> bool" where
  "number_survives rt n =
     (number_is_finite rt n \<and> json_number (number_to_string rt n)
      \<and> number_of_literal rt (number_to_string rt n) = n)"

fun json_safe :: "'n runtime \<Rightarrow> 'n jsval \<Rightarrow> bool" where
  "json_safe rt JUndefined = False"
| "json_safe rt JNull = True"
| "json_safe rt (JBool b) = True"
| "json_safe rt (JNum n) = number_survives rt n"
| "json_safe rt (JStr s) = True"
| "json_safe rt (JArr xs ps) = (ps = [] \<and> list_all (json_safe rt) xs)"
| "json_safe rt (JObj ms) =
     (canonical_keys (map fst ms) \<and> list_all (\<lambda>m. json_safe rt (snd m)) ms)"

section \<open>A runtime for the examples\<close>

text \<open>
  One runtime, to run the model on concrete requests: numbers are the integers written
  in decimal, strings are ASCII, a URL is \<^verbatim>\<open>https://host\<close>. It agrees with Node on the
  inputs of the examples below; the theorems hold for every runtime.
\<close>

definition int_to_string :: "int \<Rightarrow> jsstring" where
  "int_to_string i = (if i < 0 then 0x2D # decimal (nat (- i)) else decimal (nat i))"

definition int_of_literal :: "jsstring \<Rightarrow> int" where
  "int_of_literal l =
     (case l of
        [] \<Rightarrow> 0
      | c # r \<Rightarrow> if c = 0x2D then - int (decimal_value r) else int (decimal_value l))"

definition is_unreserved :: "jschar \<Rightarrow> bool" where
  "is_unreserved c =
     ((0x41 \<le> c \<and> c \<le> 0x5A) \<or> (0x61 \<le> c \<and> c \<le> 0x7A) \<or> is_digit c
      \<or> c = 0x2D \<or> c = 0x5F \<or> c = 0x2E \<or> c = 0x21 \<or> c = 0x7E \<or> c = 0x2A
      \<or> c = 0x27 \<or> c = 0x28 \<or> c = 0x29)"

definition upper_hex :: "nat \<Rightarrow> jschar" where
  "upper_hex d = (if d < 10 then of_nat (48 + d) else of_nat (55 + d))"

definition percent_encode :: "jsstring \<Rightarrow> jsstring option" where
  "percent_encode s =
     (if list_all (\<lambda>c. c < 0x80) s
      then Some (concat (map (\<lambda>c. if is_unreserved c then [c]
                                    else [0x25, upper_hex (unat c div 16), upper_hex (unat c mod 16)]) s))
      else None)"

definition https_origin :: "jsstring \<Rightarrow> jsstring option" where
  "https_origin u =
     (if take 8 u = js ''https://'' \<and> drop 8 u \<noteq> []
      then Some (take 8 u @ takeWhile (\<lambda>c. c \<noteq> 0x2F) (drop 8 u)) else None)"

definition b64_char :: "nat \<Rightarrow> jschar" where
  "b64_char n =
     (if n < 26 then of_nat (65 + n)
      else if n < 52 then of_nat (71 + n)
      else if n < 62 then of_nat (n - 4)
      else if n = 62 then 0x2B else 0x2F)"

definition b64_value :: "jschar \<Rightarrow> nat option" where
  "b64_value c =
     (if 0x41 \<le> c \<and> c \<le> 0x5A then Some (unat c - 65)
      else if 0x61 \<le> c \<and> c \<le> 0x7A then Some (unat c - 71)
      else if 0x30 \<le> c \<and> c \<le> 0x39 then Some (unat c + 4)
      else if c = 0x2B then Some 62
      else if c = 0x2F then Some 63
      else None)"

fun b64_encode :: "nat list \<Rightarrow> jsstring" where
  "b64_encode [] = []"
| "b64_encode [a] = [b64_char (a div 4), b64_char (a mod 4 * 16), 0x3D, 0x3D]"
| "b64_encode [a, b] =
     [b64_char (a div 4), b64_char (a mod 4 * 16 + b div 16), b64_char (b mod 16 * 4), 0x3D]"
| "b64_encode (a # b # c # r) =
     [b64_char (a div 4), b64_char (a mod 4 * 16 + b div 16),
      b64_char (b mod 16 * 4 + c div 64), b64_char (c mod 64)] @ b64_encode r"

fun b64_bytes :: "nat list \<Rightarrow> nat list" where
  "b64_bytes (a # b # c # d # r) =
     [a * 4 + b div 16, b mod 16 * 16 + c div 4, c mod 4 * 64 + d] @ b64_bytes r"
| "b64_bytes [a, b, c] = [a * 4 + b div 16, b mod 16 * 16 + c div 4]"
| "b64_bytes [a, b] = [a * 4 + b div 16]"
| "b64_bytes r = []"

definition b64_decode :: "jsstring \<Rightarrow> jsstring" where
  "b64_decode s =
     map of_nat (b64_bytes (List.map_filter b64_value (takeWhile (\<lambda>c. c \<noteq> 0x3D) s)))"

fun buffer_text :: "'n jsval \<Rightarrow> jsstring option" where
  "buffer_text (JStr s) = Some (b64_decode s)"
| "buffer_text v = None"

fun error_name :: "js_error \<Rightarrow> jsstring" where
  "error_name (Error m) = m"
| "error_name TypeError = js ''TypeError''"
| "error_name SyntaxError = js ''SyntaxError''"
| "error_name URIError = js ''URIError''"

definition example_runtime :: "int runtime" where
  "example_runtime =
     \<lparr>number_of_literal = int_of_literal,
      number_to_string = int_to_string,
      number_is_finite = (\<lambda>n. True),
      number_to_boolean = (\<lambda>n. n \<noteq> 0),
      url_origin = https_origin,
      encodeURIComponent = percent_encode,
      utf8_to_base64 = (\<lambda>s. b64_encode (map unat s)),
      base64_to_utf8 = buffer_text,
      engine_message = error_name\<rparr>"

text \<open>The environment of the examples, and a request with no headers.\<close>

definition example_env :: "jsstring \<Rightarrow> jsstring option" where
  "example_env =
     [js ''GITHUB_TOKEN'' \<mapsto> js ''t0ken'', js ''GITHUB_OWNER'' \<mapsto> js ''acme'',
      js ''GITHUB_REPO'' \<mapsto> js ''shop'']"

definition post :: "'n jsval \<Rightarrow> 'n request" where
  "post body = \<lparr>req_method = js ''POST'', req_headers = (\<lambda>h. None), req_body = body\<rparr>"

text \<open>
  A document store for the examples: it holds one document and answers every
  \<^verbatim>\<open>GET\<close> with the same text and every \<^verbatim>\<open>PUT\<close> with the same status.
\<close>

definition fixed_store :: "jsstring \<Rightarrow> nat \<Rightarrow> unit \<Rightarrow> fetch_request \<Rightarrow> fetch_result \<times> unit" where
  "fixed_store file put_status s rq =
     (if fetch_method rq = js ''GET''
      then (Fetched \<lparr>res_ok = True, res_status = 200, res_text = file\<rparr>, s)
      else (Fetched \<lparr>res_ok = (200 \<le> put_status \<and> put_status < 300), res_status = put_status,
                     res_text = js ''{}''\<rparr>, s))"

text \<open>An order for the examples.\<close>

definition ann :: "int jsval" where
  "ann = JObj [(js ''fullName'', JStr (js ''Ann''))]"

definition empty_order :: "int jsval" where
  "empty_order = JObj []"

definition null_text :: "int jsval" where
  "null_text = JStr (js ''null'')"

definition empty_text :: "int jsval" where
  "empty_text = JStr []"

definition brace_text :: "int jsval" where
  "brace_text = JStr (js ''{'')"

definition no_body :: "int jsval" where
  "no_body = JUndefined"

text \<open>
  What a store answers to the \<^verbatim>\<open>GET\<close> when the document is \<^verbatim>\<open>{"orders":[]}\<close>, and when
  it is the array \<^verbatim>\<open>[]\<close>.
\<close>

definition orders_file :: jsstring where
  \<open>orders_file = js ''{"content":"eyJvcmRlcnMiOltdfQ==","sha":"abc"}''\<close>

definition array_file :: jsstring where
  \<open>array_file = js ''{"content":"W10=","sha":"abc"}''\<close>

section \<open>Predicates of the statements\<close>

text \<open>The elements of an array (an object that is no array has none).\<close>

fun elements :: "'n jsval \<Rightarrow> 'n jsval list" where
  "elements (JArr xs ps) = xs"
| "elements v = []"

text \<open>
  The bodies that are neither objects nor strings with text in them: \<^verbatim>\<open>undefined\<close>,
  \<^verbatim>\<open>null\<close>, the booleans, the empty string, and the numbers that are falsy or whose
  text \<^verbatim>\<open>JSON.parse\<close> reads as a number (every finite number).
\<close>

fun reads_like_empty :: "'n runtime \<Rightarrow> 'n jsval \<Rightarrow> bool" where
  "reads_like_empty rt JUndefined = True"
| "reads_like_empty rt JNull = True"
| "reads_like_empty rt (JBool b) = True"
| "reads_like_empty rt (JStr t) = (t = [])"
| "reads_like_empty rt (JNum n) =
     (if number_to_boolean rt n
      then (case JSON_parse rt (number_to_string rt n) of Inr (JNum m) \<Rightarrow> True | _ \<Rightarrow> False)
      else True)"
| "reads_like_empty rt v = False"

text \<open>
  The request of the write and the outcome of \<^verbatim>\<open>putFile\<close> on its answer, as lines 34
  to 50 make them.
\<close>

definition put_request ::
  "'n runtime \<Rightarrow> jsstring \<Rightarrow> jsstring \<Rightarrow> jsstring \<Rightarrow> jsstring \<Rightarrow> 'n jsval \<Rightarrow> jsstring \<Rightarrow> fetch_request" where
  "put_request rt url token content message sha branch =
     \<lparr>fetch_method = js ''PUT'', fetch_url = url,
      fetch_headers =
        [(js ''Accept'', js ''application/vnd.github+json''),
         (js ''Authorization'', js ''Bearer '' @ token),
         (js ''Content-Type'', js ''application/json'')],
      fetch_body =
        JSON_stringify rt
          (JObj ([(js ''message'', JStr message),
                  (js ''content'', JStr (utf8_to_base64 rt content)),
                  (js ''branch'', JStr branch)]
                 @ (if truthy rt sha then [(js ''sha'', sha)] else []))) 0\<rparr>"

definition put_result :: "'n runtime \<Rightarrow> fetch_result \<Rightarrow> js_error + 'n jsval" where
  "put_result rt pr =
     (case pr of
        Rejected m \<Rightarrow> Inl (Error m)
      | Fetched res \<Rightarrow>
          if \<not> res_ok res
          then Inl (Error (js ''GitHub PUT failed: '' @ decimal (res_status res)
                           @ js '' '' @ res_text res))
          else JSON_parse rt (res_text res))"

text \<open>A member of the JSON body of a call, and a \<^verbatim>\<open>GET\<close> answer whose \<^verbatim>\<open>sha\<close> is the empty string.\<close>

definition body_field :: "'n runtime \<Rightarrow> fetch_request \<Rightarrow> jsstring \<Rightarrow> js_error + 'n jsval" where
  "body_field rt rq k =
     (case fetch_body rq of
        None \<Rightarrow> Inl TypeError
      | Some b \<Rightarrow> (case JSON_parse rt b of Inl e \<Rightarrow> Inl e | Inr v \<Rightarrow> get_prop v k))"

definition unversioned_file :: jsstring where
  \<open>unversioned_file = js ''{"content":"eyJvcmRlcnMiOltdfQ==","sha":""}''\<close>

text \<open>
  The text of the document that a run of the handler read from the store: the
  \<^verbatim>\<open>content\<close> of the answer to its first call, decoded (lines 99 and 100).
\<close>

definition document_read :: "'n runtime \<Rightarrow> 's world \<Rightarrow> jsstring option" where
  "document_read rt w =
     (case calls w of
        (g, Fetched res) # cs \<Rightarrow>
          (case JSON_parse rt (res_text res) of
             Inl e \<Rightarrow> None
           | Inr fl \<Rightarrow> (case get_prop fl (js ''content'') of Inl e \<Rightarrow> None | Inr c \<Rightarrow> base64_to_utf8 rt c))
      | _ \<Rightarrow> None)"

text \<open>
  The orders of a document as line 102 sees them: the elements of \<^verbatim>\<open>data.orders\<close> when
  that is an array, and none when the member is absent or holds anything else.
\<close>

definition previous_orders :: "'n jsval \<Rightarrow> 'n jsval list" where
  "previous_orders data =
     (case get_prop data (js ''orders'') of Inr (JArr xs ps) \<Rightarrow> xs | _ \<Rightarrow> [])"

text \<open>The text that lines 101 to 104 make of a document and an order.\<close>

definition updated_text :: "'n runtime \<Rightarrow> jsstring \<Rightarrow> 'n jsval \<Rightarrow> jsstring" where
  "updated_text rt content order =
     (case update_document rt content order of Inr (Some t) \<Rightarrow> t | _ \<Rightarrow> [])"

text \<open>
  Documents and orders for the examples: a document with no orders, the answers of a
  store that holds the document \<^verbatim>\<open>{}\<close> and of one that holds the document the first
  example request writes, a second order, and both orders as normalized at the times
  42 and 43.
\<close>

definition orders_text :: jsstring where
  \<open>orders_text = js ''{"orders":[]}''\<close>

definition bare_file :: jsstring where
  \<open>bare_file = js ''{"content":"e30=","sha":"abc"}''\<close>

definition updated_file :: jsstring where
  \<open>updated_file = js ''{"content":"ewogICJvcmRlcnMiOiBbCiAgICB7CiAgICAgICJmdWxsTmFtZSI6ICJBbm4iLAogICAgICAiaWQiOiAib3JkLTQyIiwKICAgICAgInN0YXR1cyI6ICJwZW5kaW5nIgogICAgfQogIF0KfQ==","sha":"def"}''\<close>

definition ann_order :: "int jsval" where
  "ann_order = JObj [(js ''fullName'', JStr (js ''Ann'')), (js ''id'', JStr (js ''ord-42'')),
                     (js ''status'', JStr (js ''pending''))]"

definition bob :: "int jsval" where
  "bob = JObj [(js ''phone'', JStr (js ''555''))]"

definition bob_order :: "int jsval" where
  "bob_order = JObj [(js ''phone'', JStr (js ''555'')), (js ''id'', JStr (js ''ord-43'')),
                     (js ''status'', JStr (js ''pending''))]"

section \<open>The tokens of a serialized value\<close>

text \<open>
  What the tokenizer of \<^verbatim>\<open>JSON.parse\<close> is to return on the text of a value: the
  tokens of the value, its elements and members separated by commas. The text between
  two tokens is white space, and a number ends where no character of a number follows.
\<close>

definition ws_only :: "jsstring \<Rightarrow> bool" where
  "ws_only s = list_all is_json_ws s"

definition boundary :: "jsstring \<Rightarrow> bool" where
  "boundary rest = (case rest of [] \<Rightarrow> True | c # r \<Rightarrow> \<not> is_number_char c)"

definition prefix_tokens :: "token list \<Rightarrow> token list option \<Rightarrow> token list option" where
  "prefix_tokens ts r = map_option ((@) ts) r"

fun separated :: "token list list \<Rightarrow> token list" where
  "separated [] = []"
| "separated [t] = t"
| "separated (t # u # ts) = t @ TComma # separated (u # ts)"

fun value_tokens :: "'n runtime \<Rightarrow> 'n jsval \<Rightarrow> token list" where
  "value_tokens rt JUndefined = []"
| "value_tokens rt JNull = [TNull]"
| "value_tokens rt (JBool b) = [if b then TTrue else TFalse]"
| "value_tokens rt (JNum n) = [TNumber (number_to_string rt n)]"
| "value_tokens rt (JStr s) = [TString s]"
| "value_tokens rt (JArr xs ps) = TLBracket # separated (map (value_tokens rt) xs) @ [TRBracket]"
| "value_tokens rt (JObj ms) =
     TLBrace # separated (map (\<lambda>m. TString (fst m) # TColon # value_tokens rt (snd m)) ms)
       @ [TRBrace]"




section \<open>Strings and literals\<close>

lemma unat_ch: "unat (ch c) = of_char c"
proof -
  have "(of_char c :: nat) < 256" by simp
  also have "\<dots> < 2 ^ 16" by simp
  finally show ?thesis unfolding ch_def by (simp add: unsigned_of_nat take_bit_nat_eq_self)
qed

lemma ch_inj [simp]: "ch a = ch b \<longleftrightarrow> a = b"
proof
  assume "ch a = ch b"
  then have "unat (ch a) = unat (ch b)" by simp
  then show "a = b" by (simp add: unat_ch)
qed simp

lemma js_inj [simp]: "js a = js b \<longleftrightarrow> a = b"
  unfolding js_def by (simp add: inj_on_def)

lemma js_eq_Nil [simp]: "js a = [] \<longleftrightarrow> a = []" "[] = js a \<longleftrightarrow> a = []"
  by (auto simp: js_def)

lemma parse_empty_object: "JSON_parse rt (js ''{}'') = Inr (JObj [])"
  by (simp add: JSON_parse_def js_def ch_def is_json_ws_def cons_token_def parse_step_def
      start_value_def)

lemma parse_null: "JSON_parse rt (js ''null'') = Inr JNull"
  by (simp add: JSON_parse_def js_def ch_def is_json_ws_def is_number_char_def is_digit_def
      cons_token_def parse_step_def start_value_def)

lemma origin_no_headers [simp]: "request_origin rt (\<lambda>h. None) = Inr (js ''*'')"
  by (simp add: request_origin_def string_truthy_def)

lemma configured_example [simp]: "configured example_env"
  by (simp add: configured_def example_env_def string_truthy_def)

section \<open>The request body and its validation\<close>

lemma parse_body_string: "t \<noteq> [] \<Longrightarrow> parse_body rt (JStr t) = JSON_parse rt t"
  by (simp add: parse_body_def)

text \<open>
  What the handler does with a \<^verbatim>\<open>POST\<close> once line 54 has not thrown, the configuration is
  there and the body has been read (lines 89 to 112).
\<close>

lemma handler_post:
  assumes "request_origin rt (req_headers req) = Inr origin"
    and "req_method req = js ''POST''"
    and "configured env"
    and "parse_body rt (req_body req) = Inr order"
  shows "handler rt env fetch now req s =
     (case lacks_name_and_phone rt order of
        Inl e \<Rightarrow> (Uncaught e, \<lparr>calls = [], store = s, console = []\<rparr>)
      | Inr True \<Rightarrow>
          (Responded (json_response 400 origin
                        (error_body ''Order must include fullName and phone'')),
           \<lparr>calls = [], store = s, console = []\<rparr>)
      | Inr False \<Rightarrow>
          (case normalize_order rt now order of
             Inl e \<Rightarrow> (Uncaught e, \<lparr>calls = [], store = s, console = []\<rparr>)
           | Inr order' \<Rightarrow>
               (case save_order rt fetch (or_default (env (js ''GITHUB_OWNER'')) [])
                       (or_default (env (js ''GITHUB_REPO'')) [])
                       (target_branch env)
                       (or_default (env (js ''GITHUB_TOKEN'')) []) order'
                       \<lparr>calls = [], store = s, console = []\<rparr> of
                  (Inr i, w') \<Rightarrow>
                    (Responded (json_response 200 origin
                                  (JObj [(js ''ok'', JBool True), (js ''id'', i)])), w')
                | (Inl err, w') \<Rightarrow>
                    (Responded (json_response 500 origin
                                  (JObj [(js ''error'', JStr (js ''Failed to save order'')),
                                         (js ''detail'', JStr (err_message rt err))])),
                     w'\<lparr>console := console w' @ [js ''Orders API error: '' @ err_message rt err]\<rparr>))))"
  using assms unfolding handler_def Let_def by simp

text \<open>
  C10. A \<^verbatim>\<open>POST\<close> whose body is the string \<^verbatim>\<open>null\<close>, with the configuration present:
  \<^verbatim>\<open>JSON.parse\<close> returns \<^verbatim>\<open>null\<close>, reading \<^verbatim>\<open>order.fullName\<close> throws a TypeError
  outside every \<^verbatim>\<open>try\<close>, and the handler ends without a response and without a call to
  the store.
\<close>

theorem null_body_throws:
  assumes "request_origin rt (req_headers req) = Inr origin"
    and "req_method req = js ''POST''"
    and "configured env"
    and "req_body req = JStr (js ''null'')"
  shows "handler rt env fetch now req s
           = (Uncaught TypeError, \<lparr>calls = [], store = s, console = []\<rparr>)"
  using assms unfolding handler_def Let_def
  by (simp add: parse_body_string parse_null lacks_name_and_phone_def)

theorem null_body_throws_witness:
  "request_origin example_runtime (req_headers (post null_text)) = Inr (js ''*'')
   \<and> req_method (post null_text) = js ''POST''
   \<and> configured example_env
   \<and> req_body (post null_text) = JStr (js ''null'')
   \<and> handler example_runtime example_env (fixed_store [] 200) 0 (post null_text) ()
        = (Uncaught TypeError, \<lparr>calls = [], store = (), console = []\<rparr>)"
proof -
  have o: "request_origin example_runtime (req_headers (post null_text)) = Inr (js ''*'')"
    by (simp add: post_def)
  have p: "req_method (post null_text) = js ''POST''"
    by (simp add: post_def)
  have b: "req_body (post null_text) = JStr (js ''null'')"
    by (simp add: post_def null_text_def)
  show ?thesis
    using null_body_throws [OF o p configured_example b,
            where fetch = "fixed_store [] 200" and now = 0 and s = "()"]
      o p b configured_example
    by blast
qed

text \<open>
  C4. For a \<^verbatim>\<open>POST\<close> whose body was read as \<open>order\<close> (not \<^verbatim>\<open>null\<close>, so that its
  fields can be read): the response is 400 with the body
  \<^verbatim>\<open>{error: "Order must include fullName and phone"}\<close> if and only if \<^verbatim>\<open>fullName\<close> and
  \<^verbatim>\<open>phone\<close> are both falsy, and then the document store is not called.
\<close>

theorem validation:
  assumes "request_origin rt (req_headers req) = Inr origin"
    and "req_method req = js ''POST''"
    and "configured env"
    and "parse_body rt (req_body req) = Inr order"
    and "get_prop order (js ''fullName'') = Inr n"
    and "get_prop order (js ''phone'') = Inr p"
  shows "(fst (handler rt env fetch now req s) =
            Responded \<lparr>status_code = 400, headers_sent = corsHeaders origin,
              body_sent = Some (JObj [(js ''error'',
                                       JStr (js ''Order must include fullName and phone''))])\<rparr>)
          = (\<not> truthy rt n \<and> \<not> truthy rt p)
       \<and> (\<not> truthy rt n \<and> \<not> truthy rt p
            \<longrightarrow> calls (snd (handler rt env fetch now req s)) = [])"
proof -
  have l: "lacks_name_and_phone rt order = Inr (\<not> truthy rt n \<and> \<not> truthy rt p)"
    using assms(5,6) by (simp add: lacks_name_and_phone_def)
  show ?thesis
    unfolding handler_post [OF assms(1-4)] l
    by (auto simp: json_response_def error_body_def split: sum.splits prod.splits)
qed

theorem validation_witness:
  "request_origin example_runtime (req_headers (post empty_order)) = Inr (js ''*'')
   \<and> req_method (post empty_order) = js ''POST''
   \<and> configured example_env
   \<and> parse_body example_runtime (req_body (post empty_order)) = Inr empty_order
   \<and> get_prop empty_order (js ''fullName'') = Inr JUndefined
   \<and> get_prop empty_order (js ''phone'') = Inr JUndefined
   \<and> \<not> truthy example_runtime JUndefined
   \<and> fst (handler example_runtime example_env (fixed_store [] 200) 0 (post empty_order) ()) =
        Responded \<lparr>status_code = 400, headers_sent = corsHeaders (js ''*''),
          body_sent = Some (JObj [(js ''error'',
                                   JStr (js ''Order must include fullName and phone''))])\<rparr>
   \<and> calls (snd (handler example_runtime example_env (fixed_store [] 200) 0
                   (post empty_order) ())) = []"
proof -
  have o: "request_origin example_runtime (req_headers (post empty_order)) = Inr (js ''*'')"
    by (simp add: post_def)
  have p: "req_method (post empty_order) = js ''POST''"
    by (simp add: post_def)
  have b: "parse_body example_runtime (req_body (post empty_order)) = Inr empty_order"
    by (simp add: post_def empty_order_def parse_body_def)
  have n: "get_prop empty_order (js ''fullName'') = Inr JUndefined"
    by (simp add: empty_order_def lookup_def)
  have q: "get_prop empty_order (js ''phone'') = Inr JUndefined"
    by (simp add: empty_order_def lookup_def)
  have t: "\<not> truthy example_runtime JUndefined"
    by simp
  show ?thesis
    using validation [OF o p configured_example b n q,
            where fetch = "fixed_store [] 200" and now = 0 and s = "()"]
      o p b n q t configured_example
    by blast
qed

section \<open>The CORS headers\<close>

text \<open>
  C5. The three fixed headers are on every response, but the caller's origin is not
  echoed: a preflight request from \<^verbatim>\<open>https://shop.example\<close> is answered with
  \<^verbatim>\<open>Access-Control-Allow-Origin: https://example.com\<close>. In line 54 the condition of
  \<^verbatim>\<open>?:\<close> is \<^verbatim>\<open>origin || Referer\<close>, and the branch taken parses
  \<^verbatim>\<open>Referer || 'https://example.com'\<close>; the value of the \<^verbatim>\<open>origin\<close> header is never used.
\<close>

theorem cors_origin_not_echoed:
  "handler rt env fetch now
     \<lparr>req_method = js ''OPTIONS'',
      req_headers = [js ''origin'' \<mapsto> js ''https://shop.example''],
      req_body = JUndefined\<rparr> s
   = (Responded
        \<lparr>status_code = 204,
         headers_sent =
           [(js ''Access-Control-Allow-Origin'', js ''https://example.com''),
            (js ''Access-Control-Allow-Methods'', js ''GET, POST, OPTIONS''),
            (js ''Access-Control-Allow-Headers'', js ''Content-Type''),
            (js ''Access-Control-Max-Age'', js ''86400'')],
         body_sent = None\<rparr>,
      \<lparr>calls = [], store = s, console = []\<rparr>)"
  by (simp add: handler_def request_origin_def string_truthy_def or_default_def
      new_URL_origin_def corsHeaders_def)

section \<open>Normalization\<close>

lemma map_of_replace_prop:
  "map_of (replace_prop k v ms) k' =
     (if k' = k \<and> k \<in> fst ` set ms then Some v else map_of ms k')"
  by (induction ms) force+

lemma map_of_insert_index:
  "k \<notin> fst ` set ms \<Longrightarrow>
     map_of (insert_index i (k, v) ms) k' = (if k' = k then Some v else map_of ms k')"
  by (induction ms) (auto split: option.splits)

lemma lookup_define_prop: "lookup (define_prop k v ms) k' = (if k' = k then v else lookup ms k')"
proof (cases "k \<in> fst ` set ms")
  case True
  then show ?thesis by (simp add: lookup_def define_prop_def map_of_replace_prop)
next
  case False
  then have "map_of ms k = None" by (simp add: map_of_eq_None_iff)
  with False show ?thesis
    by (auto simp: lookup_def define_prop_def map_of_insert_index map_add_def split: option.splits)
qed

lemma get_set_prop:
  "set_prop v k x = Inr v' \<Longrightarrow> get_prop v' k' = (if k' = k then Inr x else get_prop v k')"
  by (cases v) (auto simp: lookup_define_prop)

lemma set_prop_object: "is_object v \<Longrightarrow> \<exists>v'. set_prop v k x = Inr v'"
  by (cases v) auto

lemma set_prop_shape:
  "set_prop v k x = Inr v' \<Longrightarrow>
     is_object v \<and> is_object v' \<and> elements v' = elements v \<and> is_array v' = is_array v"
  by (cases v) auto

lemma digit_char_is_digit: "d < 10 \<Longrightarrow> is_digit (digit_char d)"
proof -
  assume "d < 10"
  then have "d = 0 \<or> d = 1 \<or> d = 2 \<or> d = 3 \<or> d = 4 \<or> d = 5 \<or> d = 6 \<or> d = 7 \<or> d = 8 \<or> d = 9"
    by arith
  then show ?thesis
    by (auto simp: is_digit_def digit_char_def)
qed

lemma decimal_digits: "decimal n \<noteq> [] \<and> list_all is_digit (decimal n)"
proof (induction n rule: decimal.induct)
  case (1 n)
  show ?case
  proof (cases "n < 10")
    case True
    then show ?thesis by (simp add: decimal.simps [of n] digit_char_is_digit)
  next
    case False
    have "n mod 10 < 10" by simp
    with False "1.IH" show ?thesis
      by (simp add: decimal.simps [of n] digit_char_is_digit)
  qed
qed

lemma normalize_order_result:
  assumes "normalize_order rt now order = Inr order'"
    and "get_prop order (js ''id'') = Inr i"
    and "get_prop order (js ''status'') = Inr st"
  shows "get_prop order' (js ''id'') = Inr (if truthy rt i then i else JStr (js ''ord-'' @ decimal now))"
    and "get_prop order' (js ''status'') = Inr (if truthy rt st then st else JStr (js ''pending''))"
    and "k \<noteq> js ''id'' \<Longrightarrow> k \<noteq> js ''status'' \<Longrightarrow> get_prop order' k = get_prop order k"
    and "elements order' = elements order" and "is_object order'"
proof -
  let ?i = "if truthy rt i then i else JStr (js ''ord-'' @ decimal now)"
  obtain o1 where 1: "set_prop order (js ''id'') ?i = Inr o1"
    using assms(1,2) by (auto simp: normalize_order_def split: sum.splits)
  have s1: "get_prop o1 (js ''status'') = Inr st"
    using get_set_prop [OF 1, of "js ''status''"] assms(3) by simp
  have 2: "set_prop o1 (js ''status'') (if truthy rt st then st else JStr (js ''pending'')) = Inr order'"
    using assms(1,2) 1 s1 by (simp add: normalize_order_def)
  show "get_prop order' (js ''id'') = Inr ?i"
    using get_set_prop [OF 2, of "js ''id''"] get_set_prop [OF 1, of "js ''id''"] by simp
  show "get_prop order' (js ''status'') = Inr (if truthy rt st then st else JStr (js ''pending''))"
    using get_set_prop [OF 2, of "js ''status''"] by simp
  show "get_prop order' k = get_prop order k" if "k \<noteq> js ''id''" "k \<noteq> js ''status''"
    using get_set_prop [OF 2, of k] get_set_prop [OF 1, of k] that by simp
  show "elements order' = elements order" "is_object order'"
    using set_prop_shape [OF 1] set_prop_shape [OF 2] by simp_all
qed

lemma normalize_order_object:
  assumes "is_object order"
  shows "\<exists>order'. normalize_order rt now order = Inr order'"
proof -
  obtain i where i: "get_prop order (js ''id'') = Inr i"
    using assms by (cases order) auto
  obtain o1 where 1: "set_prop order (js ''id'')
                        (if truthy rt i then i else JStr (js ''ord-'' @ decimal now)) = Inr o1"
    using set_prop_object [OF assms] by blast
  have "is_object o1" using set_prop_shape [OF 1] by simp
  then obtain st where st: "get_prop o1 (js ''status'') = Inr st"
    by (cases o1) auto
  obtain o2 where 2: "set_prop o1 (js ''status'')
                        (if truthy rt st then st else JStr (js ''pending'')) = Inr o2"
    using set_prop_object [OF \<open>is_object o1\<close>] by blast
  show ?thesis
    using i 1 st 2 by (simp add: normalize_order_def)
qed

lemma save_order_id:
  "save_order rt fetch owner repo branch token order w = (Inr i, w') \<Longrightarrow>
     get_prop order (js ''id'') = Inr i"
  by (auto simp: save_order_def split: sum.splits prod.splits option.splits)

text \<open>
  C8. Normalization of an order that is an object: \<^verbatim>\<open>id\<close> becomes \<^verbatim>\<open>"ord-"\<close> followed
  by the decimal digits of the clock exactly when it was falsy, \<^verbatim>\<open>status\<close> becomes
  \<^verbatim>\<open>"pending"\<close> exactly when it was falsy, every other property and the elements stay
  as they were. A call answered 200 returns that \<^verbatim>\<open>id\<close>: the caller's when it was
  truthy, else \<^verbatim>\<open>ord-\<close> and one or more digits.
\<close>

theorem normalization:
  assumes "request_origin rt (req_headers req) = Inr origin"
    and "req_method req = js ''POST''"
    and "configured env"
    and "parse_body rt (req_body req) = Inr order"
    and "is_object order"
    and "get_prop order (js ''id'') = Inr i"
    and "get_prop order (js ''status'') = Inr st"
  shows "\<exists>order'. normalize_order rt now order = Inr order'
          \<and> get_prop order' (js ''id'') = Inr (if truthy rt i then i else JStr (js ''ord-'' @ decimal now))
          \<and> get_prop order' (js ''status'') = Inr (if truthy rt st then st else JStr (js ''pending''))
          \<and> (\<forall>k. k \<noteq> js ''id'' \<and> k \<noteq> js ''status'' \<longrightarrow> get_prop order' k = get_prop order k)
          \<and> elements order' = elements order
          \<and> decimal now \<noteq> [] \<and> list_all is_digit (decimal now)
          \<and> (\<forall>r. fst (handler rt env fetch now req s) = Responded r \<and> status_code r = 200 \<longrightarrow>
                 body_sent r = Some (JObj [(js ''ok'', JBool True),
                    (js ''id'', if truthy rt i then i else JStr (js ''ord-'' @ decimal now))]))"
proof -
  obtain order' where n: "normalize_order rt now order = Inr order'"
    using normalize_order_object [OF assms(5)] by blast
  note r = normalize_order_result [OF n assms(6,7)]
  have h: "body_sent r = Some (JObj [(js ''ok'', JBool True),
                    (js ''id'', if truthy rt i then i else JStr (js ''ord-'' @ decimal now))])"
    if "fst (handler rt env fetch now req s) = Responded r" "status_code r = 200" for r
    using that r(1) unfolding handler_post [OF assms(1-4)] n
    by (auto simp: json_response_def error_body_def split: sum.splits prod.splits bool.splits dest!: save_order_id)
  show ?thesis
    using n r(1,2,4) r(3) decimal_digits [of now] h by (intro exI [of _ order']) auto
qed

theorem normalization_witness:
  "request_origin example_runtime (req_headers (post ann)) = Inr (js ''*'')
   \<and> req_method (post ann) = js ''POST''
   \<and> configured example_env
   \<and> parse_body example_runtime (req_body (post ann)) = Inr ann
   \<and> is_object ann
   \<and> get_prop ann (js ''id'') = Inr JUndefined
   \<and> get_prop ann (js ''status'') = Inr JUndefined
   \<and> fst (handler example_runtime example_env (fixed_store orders_file 200) 42 (post ann) ())
        = Responded \<lparr>status_code = 200, headers_sent = corsHeaders (js ''*''),
            body_sent = Some (JObj [(js ''ok'', JBool True), (js ''id'', JStr (js ''ord-42''))])\<rparr>
   \<and> (\<exists>order'. normalize_order example_runtime 42 ann = Inr order'
          \<and> get_prop order' (js ''id'') = Inr (JStr (js ''ord-'' @ decimal 42))
          \<and> get_prop order' (js ''status'') = Inr (JStr (js ''pending''))
          \<and> get_prop order' (js ''fullName'') = get_prop ann (js ''fullName''))"
proof -
  have o: "request_origin example_runtime (req_headers (post ann)) = Inr (js ''*'')"
    by (simp add: post_def)
  have p: "req_method (post ann) = js ''POST''"
    by (simp add: post_def)
  have b: "parse_body example_runtime (req_body (post ann)) = Inr ann"
    by (simp add: post_def ann_def parse_body_def)
  have ob: "is_object ann"
    by (simp add: ann_def)
  have i: "get_prop ann (js ''id'') = Inr JUndefined"
    by (simp add: ann_def lookup_def)
  have st: "get_prop ann (js ''status'') = Inr JUndefined"
    by (simp add: ann_def lookup_def)
  have run: "fst (handler example_runtime example_env (fixed_store orders_file 200) 42 (post ann) ())
        = Responded \<lparr>status_code = 200, headers_sent = corsHeaders (js ''*''),
            body_sent = Some (JObj [(js ''ok'', JBool True), (js ''id'', JStr (js ''ord-42''))])\<rparr>"
    by code_simp
  show ?thesis
    using normalization [OF o p configured_example b ob i st,
            where fetch = "fixed_store orders_file 200" and now = 42 and s = "()"]
      o p b ob i st run configured_example
    by auto
qed

section \<open>Reading the body\<close>

lemma parse_true: "JSON_parse rt (js ''true'') = Inr (JBool True)"
  by (simp add: JSON_parse_def js_def ch_def is_json_ws_def is_number_char_def is_digit_def
      cons_token_def parse_step_def start_value_def)

lemma handler_same_order:
  assumes "request_origin rt (req_headers req) = Inr origin"
    and "req_method req = js ''POST''"
    and "configured env"
    and "parse_body rt (req_body req) = Inr order"
    and "lacks_name_and_phone rt order = Inr True"
  shows "handler rt env fetch now req s =
     (Responded (json_response 400 origin (error_body ''Order must include fullName and phone'')),
           \<lparr>calls = [], store = s, console = []\<rparr>)"
  unfolding handler_post [OF assms(1-4)] assms(5) by simp

lemma reads_like_empty_parse:
  assumes "reads_like_empty rt body"
  shows "\<exists>order. parse_body rt body = Inr order \<and> lacks_name_and_phone rt order = Inr True"
proof (cases body)
  case (JBool b)
  then show ?thesis
    by (cases b) (simp_all add: parse_body_def parse_empty_object parse_true lacks_name_and_phone_def lookup_def)
next
  case (JNum n)
  show ?thesis
  proof (cases "number_to_boolean rt n")
    case True
    with assms JNum obtain m where "JSON_parse rt (number_to_string rt n) = Inr (JNum m)"
      by (auto split: sum.splits jsval.splits)
    with True JNum show ?thesis
      by (simp add: parse_body_def lacks_name_and_phone_def)
  next
    case False
    with JNum show ?thesis
      by (simp add: parse_body_def parse_empty_object lacks_name_and_phone_def lookup_def)
  qed
qed (use assms in \<open>simp_all add: parse_body_def parse_empty_object lacks_name_and_phone_def lookup_def\<close>)

text \<open>
  C7, as the code has it. An object is used as it is. A string that is not empty is
  parsed, and answered 400 \<^verbatim>\<open>{error: "Invalid JSON body"}\<close> when it is not JSON. A
  body that is \<^verbatim>\<open>undefined\<close>, \<^verbatim>\<open>null\<close>, a boolean, the empty string or a number
  (falsy, or with a text that is a JSON number) is answered as the empty object
  \<^verbatim>\<open>{}\<close> is.
\<close>

theorem body_parsing:
  assumes "request_origin rt (req_headers req) = Inr origin"
    and "req_method req = js ''POST''"
    and "configured env"
  shows "(is_object (req_body req) \<longrightarrow> parse_body rt (req_body req) = Inr (req_body req))
       \<and> (\<forall>t. req_body req = JStr t \<and> t \<noteq> [] \<longrightarrow> parse_body rt (req_body req) = JSON_parse rt t)
       \<and> (\<forall>t e. req_body req = JStr t \<and> t \<noteq> [] \<and> JSON_parse rt t = Inl e \<longrightarrow>
             handler rt env fetch now req s =
               (Responded \<lparr>status_code = 400, headers_sent = corsHeaders origin,
                   body_sent = Some (JObj [(js ''error'', JStr (js ''Invalid JSON body''))])\<rparr>,
                \<lparr>calls = [], store = s, console = []\<rparr>))
       \<and> (reads_like_empty rt (req_body req) \<longrightarrow>
             handler rt env fetch now req s = handler rt env fetch now (req\<lparr>req_body := JObj []\<rparr>) s)"
proof (intro conjI allI impI)
  show "parse_body rt (req_body req) = Inr (req_body req)" if "is_object (req_body req)"
    using that by (simp add: parse_body_def)
  show "parse_body rt (req_body req) = JSON_parse rt t" if "req_body req = JStr t \<and> t \<noteq> []" for t
    using that by (simp add: parse_body_string)
  show "handler rt env fetch now req s =
               (Responded \<lparr>status_code = 400, headers_sent = corsHeaders origin,
                   body_sent = Some (JObj [(js ''error'', JStr (js ''Invalid JSON body''))])\<rparr>,
                \<lparr>calls = [], store = s, console = []\<rparr>)"
    if "req_body req = JStr t \<and> t \<noteq> [] \<and> JSON_parse rt t = Inl e" for t e
    using that assms unfolding handler_def Let_def
    by (simp add: parse_body_string json_response_def error_body_def)
  show "handler rt env fetch now req s = handler rt env fetch now (req\<lparr>req_body := JObj []\<rparr>) s"
    if e: "reads_like_empty rt (req_body req)"
  proof -
    obtain order where 1: "parse_body rt (req_body req) = Inr order"
      and 2: "lacks_name_and_phone rt order = Inr True"
      using reads_like_empty_parse [OF e] by blast
    have 3: "parse_body rt (req_body (req\<lparr>req_body := JObj []\<rparr>)) = Inr (JObj [])"
      by (simp add: parse_body_def)
    have 4: "lacks_name_and_phone rt (JObj []) = Inr True"
      by (simp add: lacks_name_and_phone_def lookup_def)
    show ?thesis
      using handler_same_order [OF assms 1 2, of fetch now s]
        handler_same_order [OF _ _ assms(3) 3 4, of origin fetch now s] assms(1,2)
      by simp
  qed
qed

theorem body_parsing_witness:
  "request_origin example_runtime (req_headers (post brace_text)) = Inr (js ''*'')
   \<and> req_method (post brace_text) = js ''POST''
   \<and> configured example_env
   \<and> req_body (post brace_text) = JStr (js ''{'') \<and> js ''{'' \<noteq> []
   \<and> JSON_parse example_runtime (js ''{'') = Inl SyntaxError
   \<and> handler example_runtime example_env (fixed_store [] 200) 0 (post brace_text) () =
       (Responded \<lparr>status_code = 400, headers_sent = corsHeaders (js ''*''),
           body_sent = Some (JObj [(js ''error'', JStr (js ''Invalid JSON body''))])\<rparr>,
        \<lparr>calls = [], store = (), console = []\<rparr>)
   \<and> request_origin example_runtime (req_headers (post no_body)) = Inr (js ''*'')
   \<and> req_method (post no_body) = js ''POST''
   \<and> reads_like_empty example_runtime (req_body (post no_body))
   \<and> handler example_runtime example_env (fixed_store [] 200) 0 (post no_body) ()
       = handler example_runtime example_env (fixed_store [] 200) 0 ((post no_body)\<lparr>req_body := JObj []\<rparr>) ()
   \<and> is_object (req_body (post ann))
   \<and> parse_body example_runtime (req_body (post ann)) = Inr (req_body (post ann))"
proof -
  have o: "request_origin example_runtime (req_headers (post b)) = Inr (js ''*'')" for b :: "int jsval"
    by (simp add: post_def)
  have p: "req_method (post b) = js ''POST''" for b :: "int jsval"
    by (simp add: post_def)
  have b1: "req_body (post brace_text) = JStr (js ''{'') \<and> js ''{'' \<noteq> []"
    by (simp add: post_def brace_text_def)
  have s1: "JSON_parse example_runtime (js ''{'') = Inl SyntaxError"
    by (simp add: JSON_parse_def js_def ch_def is_json_ws_def cons_token_def parse_step_def start_value_def)
  have e: "reads_like_empty example_runtime (req_body (post no_body))"
    by (simp add: post_def no_body_def)
  have ob: "is_object (req_body (post ann))"
    by (simp add: post_def ann_def)
  note t1 = body_parsing [OF o [of brace_text] p [of brace_text] configured_example, where fetch = "fixed_store [] 200" and now = 0 and s = "()"]
  note t2 = body_parsing [OF o [of no_body] p [of no_body] configured_example, where fetch = "fixed_store [] 200" and now = 0 and s = "()"]
  note t3 = body_parsing [OF o [of ann] p [of ann] configured_example, where fetch = "fixed_store [] 200" and now = 0 and s = "()"]
  show ?thesis
    using t1 t2 t3 o p b1 s1 e ob configured_example
    by blast
qed

text \<open>
  The empty string is a string and is not JSON, and its answer is not
  \<^verbatim>\<open>Invalid JSON body\<close>: line 82 reads \<^verbatim>\<open>req.body || '{}'\<close>.
\<close>

theorem empty_string_body_counterexample:
  "JSON_parse example_runtime [] = Inl SyntaxError
   \<and> req_body (post empty_text) = JStr []
   \<and> fst (handler example_runtime example_env (fixed_store [] 200) 0 (post empty_text) ())
       = Responded \<lparr>status_code = 400, headers_sent = corsHeaders (js ''*''),
           body_sent = Some (JObj [(js ''error'', JStr (js ''Order must include fullName and phone''))])\<rparr>"
proof -
  have 1: "parse_body example_runtime (req_body (post empty_text)) = Inr (JObj [])"
    by (simp add: post_def empty_text_def parse_body_def parse_empty_object)
  have 2: "lacks_name_and_phone example_runtime (JObj []) = Inr True"
    by (simp add: lacks_name_and_phone_def lookup_def)
  have o: "request_origin example_runtime (req_headers (post empty_text)) = Inr (js ''*'')"
    by (simp add: post_def)
  have p: "req_method (post empty_text) = js ''POST''"
    by (simp add: post_def)
  show ?thesis
    using handler_same_order [OF o p configured_example 1 2, of "fixed_store [] 200" 0 "()"]
    by (simp add: JSON_parse_def json_response_def error_body_def post_def empty_text_def)
qed

section \<open>The calls to the document store\<close>

lemma getFile_cases:
  assumes "getFile rt fetch owner repo path branch token w = (r, w')"
  shows "(calls w' = calls w \<and> r = Inl URIError)
       \<or> (\<exists>g gr. calls w' = calls w @ [(g, gr)] \<and> fetch_method g = js ''GET''
             \<and> (\<forall>file. r = Inr file \<longrightarrow>
                   (\<exists>gres. gr = Fetched gres \<and> res_ok gres \<and> JSON_parse rt (res_text gres) = Inr file)))"
  using assms
  by (auto simp: getFile_def do_fetch_def split: option.splits prod.splits fetch_result.splits if_splits)

lemma array_index_sha: "array_index (js ''sha'') = None"
  by (simp add: array_index_def js_def ch_def is_digit_def)

lemma define_sha:
  "define_prop (js ''sha'') sha [(js ''message'', m), (js ''content'', c), (js ''branch'', b)]
     = [(js ''message'', m), (js ''content'', c), (js ''branch'', b), (js ''sha'', sha)]"
  by (simp add: define_prop_def array_index_sha)

lemma putFile_cases:
  assumes "putFile rt fetch owner repo path content sha branch token message w = (r, w')"
    and "message \<noteq> []"
  shows "(calls w' = calls w \<and> (\<exists>e. r = Inl e))
       \<or> (\<exists>url nt pr. content = Some nt \<and> contents_url rt owner repo path = Some url
             \<and> calls w' = calls w @ [(put_request rt url token nt message sha branch, pr)]
             \<and> r = put_result rt pr)"
proof (cases "contents_url rt owner repo path")
  case None
  with assms show ?thesis by (auto simp: putFile_def)
next
  case (Some url)
  show ?thesis
  proof (cases content)
    case None
    with Some assms show ?thesis by (auto simp: putFile_def)
  next
    case (Some nt)
    obtain pr s' where f: "fetch (store w) (put_request rt url token nt message sha branch) = (pr, s')"
      by (cases "fetch (store w) (put_request rt url token nt message sha branch)") auto
    have "calls w' = calls w @ [(put_request rt url token nt message sha branch, pr)] \<and> r = put_result rt pr"
      using assms \<open>contents_url rt owner repo path = Some url\<close> Some f
      by (auto simp: putFile_def do_fetch_def put_request_def put_result_def define_sha Let_def
          split: fetch_result.splits if_splits)
    with Some \<open>contents_url rt owner repo path = Some url\<close> show ?thesis by blast
  qed
qed

lemma save_order_cases:
  assumes "save_order rt fetch owner repo branch token order w = (r, w')"
  shows "(calls w' = calls w \<and> (\<exists>e. r = Inl e))
       \<or> (\<exists>g gr. calls w' = calls w @ [(g, gr)] \<and> fetch_method g = js ''GET'' \<and> (\<exists>e. r = Inl e))
       \<or> (\<exists>g gres file c content nt sha i istr url pr.
             calls w' = calls w @ [(g, Fetched gres),
                 (put_request rt url token nt (js ''Add order '' @ istr) sha branch, pr)]
             \<and> fetch_method g = js ''GET'' \<and> res_ok gres
             \<and> JSON_parse rt (res_text gres) = Inr file
             \<and> get_prop file (js ''content'') = Inr c
             \<and> base64_to_utf8 rt c = Some content
             \<and> update_document rt content order = Inr (Some nt)
             \<and> get_prop file (js ''sha'') = Inr sha
             \<and> get_prop order (js ''id'') = Inr i
             \<and> to_string rt i = Inr istr
             \<and> contents_url rt owner repo STORE_DATA_PATH = Some url
             \<and> r = (case put_result rt pr of Inl e \<Rightarrow> Inl e | Inr v \<Rightarrow> Inr i))"
proof -
  obtain r1 w1 where g: "getFile rt fetch owner repo STORE_DATA_PATH branch token w = (r1, w1)"
    by (cases "getFile rt fetch owner repo STORE_DATA_PATH branch token w") auto
  note gc = getFile_cases [OF g]
  show ?thesis
  proof (cases r1)
    case (Inl e)
    with assms g have "r = Inl e" "w' = w1" by (simp_all add: save_order_def)
    with gc show ?thesis by auto
  next
    case (Inr fl)
    with gc obtain g0 gres where c1: "calls w1 = calls w @ [(g0, Fetched gres)]"
      and g0: "fetch_method g0 = js ''GET''" and ok: "res_ok gres"
      and fl: "JSON_parse rt (res_text gres) = Inr fl"
      by auto
    show ?thesis
    proof (cases "\<exists>c content newContent sha i istr. get_prop fl (js ''content'') = Inr c
        \<and> base64_to_utf8 rt c = Some content \<and> update_document rt content order = Inr newContent
        \<and> get_prop fl (js ''sha'') = Inr sha \<and> get_prop order (js ''id'') = Inr i \<and> to_string rt i = Inr istr")
      case False
      with assms g Inr have "w' = w1 \<and> (\<exists>e. r = Inl e)"
        by (auto simp: save_order_def split: sum.splits option.splits) metis+
      with c1 g0 show ?thesis by auto
    next
      case True
      then obtain c content newContent sha i istr where s:
        "get_prop fl (js ''content'') = Inr c" "base64_to_utf8 rt c = Some content"
        "update_document rt content order = Inr newContent" "get_prop fl (js ''sha'') = Inr sha"
        "get_prop order (js ''id'') = Inr i" "to_string rt i = Inr istr"
        by blast
      obtain r2 w2 where p: "putFile rt fetch owner repo STORE_DATA_PATH newContent sha branch token
            (js ''Add order '' @ istr) w1 = (r2, w2)"
        by (cases "putFile rt fetch owner repo STORE_DATA_PATH newContent sha branch token
            (js ''Add order '' @ istr) w1") auto
      have m: "js ''Add order '' @ istr \<noteq> []" by simp
      have rr: "r = (case r2 of Inl e \<Rightarrow> Inl e | Inr v \<Rightarrow> Inr i)" "w' = w2"
        using assms g Inr s p by (auto simp: save_order_def split: sum.splits)
      from putFile_cases [OF p m] show ?thesis
      proof
        assume "calls w2 = calls w1 \<and> (\<exists>e. r2 = Inl e)"
        with rr c1 g0 show ?thesis by auto
      next
        assume "\<exists>url nt pr. newContent = Some nt \<and> contents_url rt owner repo STORE_DATA_PATH = Some url
             \<and> calls w2 = calls w1 @ [(put_request rt url token nt (js ''Add order '' @ istr) sha branch, pr)]
             \<and> r2 = put_result rt pr"
        then obtain url nt pr where q: "newContent = Some nt"
            "contents_url rt owner repo STORE_DATA_PATH = Some url"
            "calls w2 = calls w1 @ [(put_request rt url token nt (js ''Add order '' @ istr) sha branch, pr)]"
            "r2 = put_result rt pr"
          by blast
        have "calls w' = calls w @ [(g0, Fetched gres),
                 (put_request rt url token nt (js ''Add order '' @ istr) sha branch, pr)]"
          using q(3) c1 rr(2) by simp
        with g0 ok fl s q rr show ?thesis by blast
      qed
    qed
  qed
qed

lemma handler_cases:
  assumes "handler rt env fetch now req s = (out, w)"
  shows "calls w = []
       \<or> (\<exists>origin order0 order r w1.
             request_origin rt (req_headers req) = Inr origin
             \<and> parse_body rt (req_body req) = Inr order0
             \<and> normalize_order rt now order0 = Inr order
             \<and> save_order rt fetch (or_default (env (js ''GITHUB_OWNER'')) [])
                   (or_default (env (js ''GITHUB_REPO'')) []) (target_branch env)
                   (or_default (env (js ''GITHUB_TOKEN'')) []) order
                   \<lparr>calls = [], store = s, console = []\<rparr> = (r, w1)
             \<and> calls w = calls w1
             \<and> out = Responded (case r of
                   Inr i \<Rightarrow> json_response 200 origin (JObj [(js ''ok'', JBool True), (js ''id'', i)])
                 | Inl err \<Rightarrow> json_response 500 origin
                                  (JObj [(js ''error'', JStr (js ''Failed to save order'')),
                                         (js ''detail'', JStr (err_message rt err))])))"
  using assms unfolding handler_def Let_def
  by (auto split: sum.splits prod.splits bool.splits if_splits)

lemma GET_not_PUT: "js ''GET'' \<noteq> js ''PUT''"
  by simp

text \<open>
  C2. Whenever the write (the \<^verbatim>\<open>PUT\<close>) of a request is answered with a status that is
  not ok (a stale \<^verbatim>\<open>sha\<close>, or any other), the response is 500 with
  \<^verbatim>\<open>{error: "Failed to save order", detail: m}\<close>, where \<open>m\<close> is
  \<^verbatim>\<open>GitHub PUT failed: \<close> followed by the status code and the answer's text; and the
  request made two calls in all, the \<^verbatim>\<open>GET\<close> and that \<^verbatim>\<open>PUT\<close>: nothing is fetched or
  written again.
\<close>

theorem rejected_write:
  assumes "handler rt env fetch now req s = (out, w)"
    and "(p, Fetched res) \<in> set (calls w)"
    and "fetch_method p = js ''PUT''"
    and "\<not> res_ok res"
  shows "(\<exists>origin. out = Responded \<lparr>status_code = 500, headers_sent = corsHeaders origin,
            body_sent = Some (JObj [(js ''error'', JStr (js ''Failed to save order'')),
               (js ''detail'', JStr (js ''GitHub PUT failed: '' @ decimal (res_status res)
                                     @ js '' '' @ res_text res))])\<rparr>)
       \<and> (\<exists>g gr. calls w = [(g, gr), (p, Fetched res)] \<and> fetch_method g = js ''GET'')"
proof -
  from handler_cases [OF assms(1)] assms(2)
  obtain origin order r w1 where
    sv: "save_order rt fetch (or_default (env (js ''GITHUB_OWNER'')) [])
                   (or_default (env (js ''GITHUB_REPO'')) []) (target_branch env)
                   (or_default (env (js ''GITHUB_TOKEN'')) []) order
                   \<lparr>calls = [], store = s, console = []\<rparr> = (r, w1)"
    and cw: "calls w = calls w1"
    and out: "out = Responded (case r of
                   Inr i \<Rightarrow> json_response 200 origin (JObj [(js ''ok'', JBool True), (js ''id'', i)])
                 | Inl err \<Rightarrow> json_response 500 origin
                                  (JObj [(js ''error'', JStr (js ''Failed to save order'')),
                                         (js ''detail'', JStr (err_message rt err))]))"
    by auto
  from save_order_cases [OF sv] assms(2,3) cw
  obtain g gres i pr where c: "calls w1 = [(g, Fetched gres), (p, pr)]"
    and g: "fetch_method g = js ''GET''"
    and r: "r = (case put_result rt pr of Inl e \<Rightarrow> Inl e | Inr v \<Rightarrow> Inr i)"
    by (auto simp: put_request_def)
  from c cw assms(2,3) g have pr: "pr = Fetched res"
    by auto
  have "r = Inl (Error (js ''GitHub PUT failed: '' @ decimal (res_status res) @ js '' '' @ res_text res))"
    using r pr assms(4) by (simp add: put_result_def)
  with out c cw g pr show ?thesis
    by (auto simp: json_response_def)
qed

lemma second_call:
  assumes "map f cs = [a, b]"
  shows "(fst (cs ! 1), snd (cs ! 1)) \<in> set cs" and "f (cs ! 1) = b"
proof -
  from assms have l: "length cs = 2"
    by (metis length_map length_Cons list.size(3) One_nat_def Suc_1)
  then show "(fst (cs ! 1), snd (cs ! 1)) \<in> set cs" by simp
  from l have "map f cs ! 1 = f (cs ! 1)" by simp
  with assms show "f (cs ! 1) = b" by simp
qed

lemma example_rejected_run:
  "map (\<lambda>c. (fetch_method (fst c), snd c))
     (calls (snd (handler example_runtime example_env (fixed_store orders_file 409) 42 (post ann) ())))
   = [(js ''GET'', Fetched \<lparr>res_ok = True, res_status = 200, res_text = orders_file\<rparr>),
      (js ''PUT'', Fetched \<lparr>res_ok = False, res_status = 409, res_text = js ''{}''\<rparr>)]"
  by code_simp

theorem rejected_write_witness:
  "(fst (calls (snd (handler example_runtime example_env (fixed_store orders_file 409) 42 (post ann) ())) ! 1),
    Fetched \<lparr>res_ok = False, res_status = 409, res_text = js ''{}''\<rparr>)
     \<in> set (calls (snd (handler example_runtime example_env (fixed_store orders_file 409) 42 (post ann) ())))
   \<and> fetch_method (fst (calls (snd (handler example_runtime example_env (fixed_store orders_file 409) 42
                                        (post ann) ())) ! 1)) = js ''PUT''
   \<and> \<not> res_ok \<lparr>res_ok = False, res_status = 409, res_text = js ''{}''\<rparr>
   \<and> (\<exists>origin. fst (handler example_runtime example_env (fixed_store orders_file 409) 42 (post ann) ())
         = Responded \<lparr>status_code = 500, headers_sent = corsHeaders origin,
            body_sent = Some (JObj [(js ''error'', JStr (js ''Failed to save order'')),
               (js ''detail'', JStr (js ''GitHub PUT failed: '' @ decimal 409 @ js '' '' @ js ''{}''))])\<rparr>)
   \<and> length (calls (snd (handler example_runtime example_env (fixed_store orders_file 409) 42 (post ann) ()))) = 2"
proof -
  let ?H = "handler example_runtime example_env (fixed_store orders_file 409) 42 (post ann) ()"
  let ?res = "\<lparr>res_ok = False, res_status = 409, res_text = js ''{}''\<rparr>"
  note s = second_call [OF example_rejected_run]
  have p: "fetch_method (fst (calls (snd ?H) ! 1)) = js ''PUT''"
    and e: "snd (calls (snd ?H) ! 1) = Fetched ?res"
    using s(2) by simp_all
  have m: "(fst (calls (snd ?H) ! 1), Fetched ?res) \<in> set (calls (snd ?H))"
    using s(1) by (simp only: e)
  have r: "\<not> res_ok ?res" by simp
  have h: "?H = (fst ?H, snd ?H)" by simp
  have c: "\<exists>origin. fst ?H
         = Responded \<lparr>status_code = 500, headers_sent = corsHeaders origin,
            body_sent = Some (JObj [(js ''error'', JStr (js ''Failed to save order'')),
               (js ''detail'', JStr (js ''GitHub PUT failed: '' @ decimal 409 @ js '' '' @ js ''{}''))])\<rparr>"
    using rejected_write [OF h m p r, THEN conjunct1] by simp
  have l: "length (calls (snd ?H)) = 2"
    using arg_cong [OF example_rejected_run, of length] by simp
  show ?thesis
    by (intro conjI m p r c l)
qed

text \<open>
  C3, as the code has it. The write of a request follows one successful \<^verbatim>\<open>GET\<close>, and
  its body is the compact JSON of \<^verbatim>\<open>message\<close>, \<^verbatim>\<open>content\<close>, \<^verbatim>\<open>branch\<close> and, when
  the fetched \<^verbatim>\<open>sha\<close> is truthy, that \<^verbatim>\<open>sha\<close>: the message is \<^verbatim>\<open>Add order \<close> followed
  by the order's \<^verbatim>\<open>id\<close>, the content is the base64 of the fetched document with the
  order added, printed by \<^verbatim>\<open>JSON.stringify\<close> with an indentation of 2.
\<close>

theorem write_request:
  assumes "handler rt env fetch now req s = (out, w)"
    and "(p, pr) \<in> set (calls w)"
    and "fetch_method p = js ''PUT''"
  shows "\<exists>g gres fl c content order0 order data data' newContent sha i istr.
           calls w = [(g, Fetched gres), (p, pr)] \<and> fetch_method g = js ''GET'' \<and> res_ok gres
           \<and> JSON_parse rt (res_text gres) = Inr fl
           \<and> get_prop fl (js ''content'') = Inr c \<and> base64_to_utf8 rt c = Some content
           \<and> get_prop fl (js ''sha'') = Inr sha
           \<and> parse_body rt (req_body req) = Inr order0 \<and> normalize_order rt now order0 = Inr order
           \<and> JSON_parse rt content = Inr data \<and> add_order data order = Inr data'
           \<and> JSON_stringify rt data' 2 = Some newContent
           \<and> get_prop order (js ''id'') = Inr i \<and> to_string rt i = Inr istr
           \<and> fetch_body p =
                JSON_stringify rt
                  (JObj ([(js ''message'', JStr (js ''Add order '' @ istr)),
                          (js ''content'', JStr (utf8_to_base64 rt newContent)),
                          (js ''branch'', JStr (target_branch env))]
                         @ (if truthy rt sha then [(js ''sha'', sha)] else []))) 0"
proof -
  from handler_cases [OF assms(1)] assms(2)
  obtain origin order0 order r w1 where
    b: "parse_body rt (req_body req) = Inr order0" and n: "normalize_order rt now order0 = Inr order"
    and sv: "save_order rt fetch (or_default (env (js ''GITHUB_OWNER'')) [])
                   (or_default (env (js ''GITHUB_REPO'')) []) (target_branch env)
                   (or_default (env (js ''GITHUB_TOKEN'')) []) order
                   \<lparr>calls = [], store = s, console = []\<rparr> = (r, w1)"
    and cw: "calls w = calls w1"
    by auto
  from save_order_cases [OF sv] assms(2,3) cw
  obtain g gres fl c content nt sha i istr url pr' where
    c: "calls w1 = [(g, Fetched gres),
           (put_request rt url (or_default (env (js ''GITHUB_TOKEN'')) []) nt
              (js ''Add order '' @ istr) sha (target_branch env), pr')]"
    and g: "fetch_method g = js ''GET''" "res_ok gres" "JSON_parse rt (res_text gres) = Inr fl"
    and f: "get_prop fl (js ''content'') = Inr c" "base64_to_utf8 rt c = Some content"
       "get_prop fl (js ''sha'') = Inr sha"
    and u: "update_document rt content order = Inr (Some nt)"
    and i: "get_prop order (js ''id'') = Inr i" "to_string rt i = Inr istr"
    by auto
  from u obtain data data' where d: "JSON_parse rt content = Inr data" "add_order data order = Inr data'"
      "JSON_stringify rt data' 2 = Some nt"
    by (auto simp: update_document_def split: sum.splits)
  from c cw assms(2,3) g(1) have p: "p = put_request rt url (or_default (env (js ''GITHUB_TOKEN'')) []) nt
              (js ''Add order '' @ istr) sha (target_branch env)" "pr = pr'"
    by auto
  have fb: "fetch_body p =
                JSON_stringify rt
                  (JObj ([(js ''message'', JStr (js ''Add order '' @ istr)),
                          (js ''content'', JStr (utf8_to_base64 rt nt)),
                          (js ''branch'', JStr (target_branch env))]
                         @ (if truthy rt sha then [(js ''sha'', sha)] else []))) 0"
    unfolding p put_request_def by simp
  have cw': "calls w = [(g, Fetched gres), (p, pr)]"
    using c cw p by simp
  show ?thesis
    by (intro exI conjI) (rule cw' g f b n d i fb)+
qed

lemma example_accepted_run:
  "map (\<lambda>c. (fetch_method (fst c), body_field example_runtime (fst c) (js ''sha'')))
     (calls (snd (handler example_runtime example_env (fixed_store orders_file 200) 42 (post ann) ())))
   = [(js ''GET'', Inl TypeError), (js ''PUT'', Inr (JStr (js ''abc'')))]"
  by code_simp

theorem write_request_witness:
  "(fst (calls (snd (handler example_runtime example_env (fixed_store orders_file 200) 42 (post ann) ())) ! 1),
    snd (calls (snd (handler example_runtime example_env (fixed_store orders_file 200) 42 (post ann) ())) ! 1))
     \<in> set (calls (snd (handler example_runtime example_env (fixed_store orders_file 200) 42 (post ann) ())))
   \<and> fetch_method (fst (calls (snd (handler example_runtime example_env (fixed_store orders_file 200) 42
                                        (post ann) ())) ! 1)) = js ''PUT''
   \<and> body_field example_runtime
        (fst (calls (snd (handler example_runtime example_env (fixed_store orders_file 200) 42
                            (post ann) ())) ! 1)) (js ''sha'') = Inr (JStr (js ''abc''))
   \<and> (\<exists>g gres fl c content order0 order data data' newContent sha i istr.
           calls (snd (handler example_runtime example_env (fixed_store orders_file 200) 42 (post ann) ()))
             = [(g, Fetched gres),
                (fst (calls (snd (handler example_runtime example_env (fixed_store orders_file 200) 42
                                    (post ann) ())) ! 1),
                 snd (calls (snd (handler example_runtime example_env (fixed_store orders_file 200) 42
                                    (post ann) ())) ! 1))]
           \<and> fetch_method g = js ''GET'' \<and> res_ok gres
           \<and> JSON_parse example_runtime (res_text gres) = Inr fl
           \<and> get_prop fl (js ''content'') = Inr c \<and> base64_to_utf8 example_runtime c = Some content
           \<and> get_prop fl (js ''sha'') = Inr sha
           \<and> parse_body example_runtime (req_body (post ann)) = Inr order0
           \<and> normalize_order example_runtime 42 order0 = Inr order
           \<and> JSON_parse example_runtime content = Inr data \<and> add_order data order = Inr data'
           \<and> JSON_stringify example_runtime data' 2 = Some newContent
           \<and> get_prop order (js ''id'') = Inr i \<and> to_string example_runtime i = Inr istr
           \<and> fetch_body (fst (calls (snd (handler example_runtime example_env (fixed_store orders_file 200)
                                             42 (post ann) ())) ! 1)) =
                JSON_stringify example_runtime
                  (JObj ([(js ''message'', JStr (js ''Add order '' @ istr)),
                          (js ''content'', JStr (utf8_to_base64 example_runtime newContent)),
                          (js ''branch'', JStr (target_branch example_env))]
                         @ (if truthy example_runtime sha then [(js ''sha'', sha)] else []))) 0)"
proof -
  let ?H = "handler example_runtime example_env (fixed_store orders_file 200) 42 (post ann) ()"
  note s = second_call [OF example_accepted_run]
  have p: "fetch_method (fst (calls (snd ?H) ! 1)) = js ''PUT''"
    and b: "body_field example_runtime (fst (calls (snd ?H) ! 1)) (js ''sha'') = Inr (JStr (js ''abc''))"
    using s(2) by simp_all
  have h: "?H = (fst ?H, snd ?H)" by simp
  show ?thesis
    by (intro conjI s(1) p b write_request [OF h s(1) p])
qed

text \<open>
  A store that answers the \<^verbatim>\<open>GET\<close> with an empty \<^verbatim>\<open>sha\<close>: the write has no \<^verbatim>\<open>sha\<close>
  member (line 40, \<^verbatim>\<open>if (sha) body.sha = sha\<close>).
\<close>

theorem falsy_sha_counterexample:
  "JSON_parse example_runtime unversioned_file
     = Inr (JObj [(js ''content'', JStr (js ''eyJvcmRlcnMiOltdfQ=='')), (js ''sha'', JStr [])])
   \<and> map (\<lambda>c. (fetch_method (fst c), body_field example_runtime (fst c) (js ''sha'')))
         (calls (snd (handler example_runtime example_env (fixed_store unversioned_file 200) 42
                        (post ann) ())))
       = [(js ''GET'', Inl TypeError), (js ''PUT'', Inr JUndefined)]"
  by code_simp

section \<open>Reading back a serialized string\<close>

lemma hex_recombine:
  "((n div 4096 * 16 + n div 256 mod 16) * 16 + n div 16 mod 16) * 16 + n mod 16 = (n::nat)"
proof -
  have 1: "n div 4096 = n div 256 div 16" by (simp add: div_mult2_eq)
  have 2: "n div 256 = n div 16 div 16" by (simp add: div_mult2_eq)
  have "n div 4096 * 16 + n div 256 mod 16 = n div 256"
    unfolding 1 by simp
  moreover have "n div 256 * 16 + n div 16 mod 16 = n div 16"
    unfolding 2 by simp
  moreover have "n div 16 * 16 + n mod 16 = n"
    by simp
  ultimately show ?thesis by simp
qed

lemma hex_value_digit: "d < 16 \<Longrightarrow> hex_value (hex_digit d) = Some d"
proof -
  assume "d < 16"
  then have "d = 0 \<or> d = 1 \<or> d = 2 \<or> d = 3 \<or> d = 4 \<or> d = 5 \<or> d = 6 \<or> d = 7 \<or> d = 8 \<or> d = 9
      \<or> d = 10 \<or> d = 11 \<or> d = 12 \<or> d = 13 \<or> d = 14 \<or> d = 15"
    by arith
  then show ?thesis
    by (elim disjE) (simp_all add: hex_value_def hex_digit_def)
qed

lemma unat_jschar_bound: "unat (c :: jschar) < 65536"
  using unsigned_less [of c, where ?'a = nat] by simp

lemma hex4_digits:
  "hex4 (hex_digit (unat c div 4096)) (hex_digit (unat c div 256 mod 16))
        (hex_digit (unat c div 16 mod 16)) (hex_digit (unat c mod 16)) = Some c"
proof -
  have 1: "hex_value (hex_digit (unat c div 4096)) = Some (unat c div 4096)"
    using unat_jschar_bound [of c] by (intro hex_value_digit) simp
  have 2: "hex_value (hex_digit (unat c div 256 mod 16)) = Some (unat c div 256 mod 16)"
    "hex_value (hex_digit (unat c div 16 mod 16)) = Some (unat c div 16 mod 16)"
    "hex_value (hex_digit (unat c mod 16)) = Some (unat c mod 16)"
    by (intro hex_value_digit, simp)+
  show ?thesis
    unfolding hex4_def 1 2 by (simp only: prod.case option.case hex_recombine of_nat_unat ucast_id)
qed

lemma lex_end: "lex_string (0x22 # rest) = Some ([], rest)"
  by simp

lemma lex_plain:
  "c \<noteq> 0x22 \<Longrightarrow> c \<noteq> 0x5C \<Longrightarrow> \<not> c < 0x20 \<Longrightarrow> lex_string (c # r) = prepend c (lex_string r)"
  by simp

lemma lex_simple:
  "simple_escape e = Some u \<Longrightarrow> e \<noteq> 0x75 \<Longrightarrow> lex_string (0x5C # e # r) = prepend u (lex_string r)"
  by simp

lemma lex_hex:
  "hex4 a b c d = Some u \<Longrightarrow> lex_string (0x5C # 0x75 # a # b # c # d # r) = prepend u (lex_string r)"
  by simp

declare lex_string.simps [simp del]

lemma lex_unicode_escape: "lex_string (unicode_escape c @ r) = prepend c (lex_string r)"
  by (simp add: unicode_escape_def lex_hex [OF hex4_digits])

lemma lex_escape_unit: "lex_string (escape_unit c @ r) = prepend c (lex_string r)"
  by (simp add: escape_unit_def lex_unicode_escape lex_simple lex_plain simple_escape_def)

lemma surrogate_plain:
  "is_high_surrogate c \<or> is_low_surrogate c \<Longrightarrow> c \<noteq> 0x22 \<and> c \<noteq> 0x5C \<and> \<not> c < 0x20"
  by (auto simp: is_high_surrogate_def is_low_surrogate_def word_le_nat_alt word_less_nat_alt)

lemma lex_quote_units: "lex_string (quote_units s @ 0x22 # rest) = Some (s, rest)"
proof (induction s rule: quote_units.induct)
  case 1
  show ?case by (simp add: lex_end)
next
  case (2 c)
  show ?case
    by (simp add: lex_unicode_escape lex_escape_unit lex_end prepend_def)
next
  case (3 c d cs)
  show ?case
  proof (cases "is_high_surrogate c")
    case True
    show ?thesis
    proof (cases "is_low_surrogate d")
      case l: True
      have "lex_string (c # d # quote_units cs @ 0x22 # rest)
              = prepend c (prepend d (lex_string (quote_units cs @ 0x22 # rest)))"
        using surrogate_plain [of c] surrogate_plain [of d] True l
        by (simp add: lex_plain)
      with True l "3.IH"(1) show ?thesis
        by (simp add: prepend_def)
    next
      case False
      with True "3.IH"(2) show ?thesis
        by (simp add: lex_unicode_escape prepend_def)
    qed
  next
    case False
    with "3.IH"(3,4) show ?thesis
      by (simp add: lex_unicode_escape lex_escape_unit prepend_def)
  qed
qed

section \<open>The tokens of serialized text\<close>

lemma prefix_tokens_simps [simp]:
  "prefix_tokens [] r = r"
  "prefix_tokens (t # ts) r = cons_token t (prefix_tokens ts r)"
  "prefix_tokens (ts @ us) r = prefix_tokens ts (prefix_tokens us r)"
  by (cases r; simp add: prefix_tokens_def cons_token_def)+

lemma tokens_ws: "ws_only w \<Longrightarrow> tokens (w @ rest) = tokens rest"
  by (induction w) (simp_all add: ws_only_def)

lemma tokens_punct:
  "tokens (0x7B # rest) = cons_token TLBrace (tokens rest)"
  "tokens (0x7D # rest) = cons_token TRBrace (tokens rest)"
  "tokens (0x5B # rest) = cons_token TLBracket (tokens rest)"
  "tokens (0x5D # rest) = cons_token TRBracket (tokens rest)"
  "tokens (0x3A # rest) = cons_token TColon (tokens rest)"
  "tokens (0x2C # rest) = cons_token TComma (tokens rest)"
  by (simp_all add: is_json_ws_def)

lemma tokens_quote: "tokens (quote s @ rest) = cons_token (TString s) (tokens rest)"
  by (simp add: quote_def is_json_ws_def lex_quote_units)

lemma tokens_literal:
  "tokens (js ''null'' @ rest) = cons_token TNull (tokens rest)"
  "tokens (js ''true'' @ rest) = cons_token TTrue (tokens rest)"
  "tokens (js ''false'' @ rest) = cons_token TFalse (tokens rest)"
  by (simp_all add: js_def ch_def is_json_ws_def is_number_char_def is_digit_def)

lemma boundary_simps [simp]:
  "boundary []" "boundary (0x2C # r)" "boundary (0x0A # r)" "boundary (0x5D # r)" "boundary (0x7D # r)"
  "boundary (0x20 # r)"
  by (simp_all add: boundary_def is_number_char_def is_digit_def)

lemma digits_number_chars: "list_all is_digit s \<Longrightarrow> list_all is_number_char s"
  by (induction s) (auto simp: is_number_char_def)

lemma split_digits: "s = takeWhile is_digit s @ dropWhile is_digit s"
  by simp

lemma takeWhile_digits: "list_all is_digit (takeWhile is_digit s)"
  by (induction s) auto

lemma json_exponent_chars: "json_exponent s \<Longrightarrow> list_all is_number_char s"
  by (auto simp: json_exponent_def Let_def is_number_char_def digits_number_chars
      split: list.splits if_splits)

lemma dropWhile_digits_chars:
  assumes "list_all is_number_char (dropWhile is_digit s)"
  shows "list_all is_number_char s"
proof -
  have "list_all is_number_char (takeWhile is_digit s @ dropWhile is_digit s)"
    using assms digits_number_chars [OF takeWhile_digits [of s]]
    by (simp only: list_all_append simp_thms)
  then show ?thesis by (simp only: takeWhile_dropWhile_id)
qed

lemma json_fraction_chars:
  assumes "json_fraction s"
  shows "list_all is_number_char s"
proof (cases s)
  case Nil
  then show ?thesis by simp
next
  case (Cons p r)
  show ?thesis
  proof (cases "p = 0x2E")
    case True
    with assms Cons have "json_exponent (dropWhile is_digit r)"
      by (simp add: json_fraction_def)
    then have "list_all is_number_char r"
      using json_exponent_chars dropWhile_digits_chars by blast
    with True Cons show ?thesis by (simp add: is_number_char_def)
  next
    case False
    with assms Cons have "json_exponent s" by (simp add: json_fraction_def)
    then show ?thesis by (rule json_exponent_chars)
  qed
qed

lemma json_integer_chars:
  assumes "json_integer s"
  shows "s \<noteq> [] \<and> list_all is_number_char s"
proof (cases s)
  case Nil
  with assms show ?thesis by (simp add: json_integer_def)
next
  case (Cons d r)
  show ?thesis
  proof (cases "d = 0x30")
    case True
    with assms Cons have "json_fraction r" by (simp add: json_integer_def)
    then have "list_all is_number_char r" by (rule json_fraction_chars)
    with True Cons show ?thesis by (simp add: is_number_char_def is_digit_def)
  next
    case False
    with assms Cons have d: "is_digit d" and "json_fraction (dropWhile is_digit r)"
      by (simp_all add: json_integer_def)
    then have "list_all is_number_char r"
      using json_fraction_chars dropWhile_digits_chars by blast
    with d Cons show ?thesis by (simp add: is_number_char_def)
  qed
qed

lemma json_number_chars:
  assumes "json_number s"
  shows "s \<noteq> [] \<and> list_all is_number_char s"
proof (cases s)
  case Nil
  with assms show ?thesis by (simp add: json_number_def)
next
  case (Cons m r)
  show ?thesis
  proof (cases "m = 0x2D")
    case True
    with assms Cons have "json_integer r" by (simp add: json_number_def)
    with True Cons json_integer_chars [of r] show ?thesis by (simp add: is_number_char_def)
  next
    case False
    with assms Cons have "json_integer s" by (simp add: json_number_def)
    then show ?thesis by (rule json_integer_chars)
  qed
qed

lemma number_char_other:
  "is_number_char c \<Longrightarrow>
     \<not> is_json_ws c \<and> c \<noteq> 0x7B \<and> c \<noteq> 0x7D \<and> c \<noteq> 0x5B \<and> c \<noteq> 0x5D \<and> c \<noteq> 0x3A
     \<and> c \<noteq> 0x2C \<and> c \<noteq> 0x22"
  by (auto simp: is_number_char_def is_digit_def is_json_ws_def word_le_nat_alt)

lemma takeWhile_boundary:
  "list_all is_number_char s \<Longrightarrow> boundary rest \<Longrightarrow>
     takeWhile is_number_char (s @ rest) = s \<and> dropWhile is_number_char (s @ rest) = rest"
  by (induction s) (auto simp: boundary_def split: list.splits)

lemma tokens_number:
  assumes "json_number lit" and "boundary rest"
  shows "tokens (lit @ rest) = cons_token (TNumber lit) (tokens rest)"
proof -
  from json_number_chars [OF assms(1)] obtain c cs where l: "lit = c # cs"
    and c: "is_number_char c" and cs: "list_all is_number_char cs"
    by (cases lit) auto
  note o = number_char_other [OF c]
  note t = takeWhile_boundary [OF cs assms(2)]
  show ?thesis
    using assms(1) o c t unfolding l by simp
qed

declare tokens.simps(2) [simp del]

lemma ws_only_simps [simp]:
  "ws_only []" "ws_only (0x0A # s) = ws_only s" "ws_only (0x20 # s) = ws_only s"
  "ws_only (s @ t) = (ws_only s \<and> ws_only t)"
  by (simp_all add: ws_only_def is_json_ws_def)

lemma tokens_joined:
  assumes "\<And>x rest'. x \<in> set xs \<Longrightarrow> boundary rest' \<Longrightarrow>
             tokens (f x @ rest') = prefix_tokens (g x) (tokens rest')"
    and "ws_only w" and "boundary rest" and "xs \<noteq> []"
  shows "tokens (join_with (0x2C # w) (map f xs) @ rest)
           = prefix_tokens (separated (map g xs)) (tokens rest)"
  using assms(1,4)
proof (induction xs rule: induct_list012)
  case 1
  then show ?case by simp
next
  case (2 x)
  then show ?case using assms(3) by simp
next
  case (3 x y zs)
  have "tokens (f x @ 0x2C # w @ join_with (0x2C # w) (map f (y # zs)) @ rest)
          = prefix_tokens (g x) (tokens (0x2C # w @ join_with (0x2C # w) (map f (y # zs)) @ rest))"
    by (rule "3.prems"(1)) simp_all
  also have "tokens (0x2C # w @ join_with (0x2C # w) (map f (y # zs)) @ rest)
          = cons_token TComma (tokens (join_with (0x2C # w) (map f (y # zs)) @ rest))"
    using tokens_ws [OF assms(2)] by (simp add: tokens_punct)
  also have "tokens (join_with (0x2C # w) (map f (y # zs)) @ rest)
          = prefix_tokens (separated (map g (y # zs))) (tokens rest)"
    using "3.prems" by (intro "3.IH"(2)) simp_all
  finally show ?case by simp
qed

lemma bracket_shape:
  assumes "parts \<noteq> []" and "ws_only gap" and "ws_only ind"
  shows "\<exists>lead w trail. ws_only lead \<and> ws_only w \<and> ws_only trail
           \<and> bracket l r gap ind parts = l # lead @ join_with (0x2C # w) parts @ trail @ [r]"
proof (cases "gap = []")
  case True
  have "bracket l r gap ind parts = l # [] @ join_with (0x2C # []) parts @ [] @ [r]"
    using assms(1) True by (simp add: bracket_def)
  then show ?thesis by (metis ws_only_simps(1))
next
  case False
  have "bracket l r gap ind parts
          = l # (0x0A # ind @ gap) @ join_with (0x2C # (0x0A # ind @ gap)) parts @ (0x0A # ind) @ [r]"
    using assms(1) False by (simp add: bracket_def)
  moreover have "ws_only (0x0A # ind @ gap)" "ws_only (0x0A # ind)"
    using assms(2,3) by simp_all
  ultimately show ?thesis by metis
qed

lemma boundary_ws: "ws_only t \<Longrightarrow> boundary (c # r) \<Longrightarrow> boundary (t @ c # r)"
  using number_char_other by (cases t) (auto simp: boundary_def ws_only_def)

lemma tokens_bracket:
  assumes "\<And>x rest'. x \<in> set xs \<Longrightarrow> boundary rest' \<Longrightarrow>
             tokens (f x @ rest') = prefix_tokens (g x) (tokens rest')"
    and "ws_only gap" and "ws_only ind"
    and l: "\<And>lrest. tokens (l # lrest) = cons_token topen (tokens lrest)"
    and r: "tokens (r # rest) = cons_token tclose (tokens rest)"
    and br: "boundary (r # rest)"
  shows "tokens (bracket l r gap ind (map f xs) @ rest)
           = prefix_tokens (topen # separated (map g xs) @ [tclose]) (tokens rest)"
proof (cases "xs = []")
  case True
  then show ?thesis by (simp add: bracket_def l r)
next
  case False
  then have "map f xs \<noteq> []" by simp
  from bracket_shape [OF this assms(2,3), of l r]
  obtain lead w trail where ws: "ws_only lead" "ws_only w" "ws_only trail"
    and b: "bracket l r gap ind (map f xs) = l # lead @ join_with (0x2C # w) (map f xs) @ trail @ [r]"
    by blast
  have "tokens (bracket l r gap ind (map f xs) @ rest)
          = cons_token topen (tokens (lead @ join_with (0x2C # w) (map f xs) @ trail @ r # rest))"
    unfolding b by (simp add: l)
  also have "tokens (lead @ join_with (0x2C # w) (map f xs) @ trail @ r # rest)
          = tokens (join_with (0x2C # w) (map f xs) @ (trail @ r # rest))"
    by (simp add: tokens_ws [OF ws(1)])
  also have "\<dots> = prefix_tokens (separated (map g xs)) (tokens (trail @ r # rest))"
    using assms(1) ws(2) boundary_ws [OF ws(3) br] False by (rule tokens_joined)
  also have "tokens (trail @ r # rest) = cons_token tclose (tokens rest)"
    by (simp add: tokens_ws [OF ws(3)] r)
  finally show ?thesis by simp
qed

lemma concat_members:
  assumes "\<And>m. m \<in> set ms \<Longrightarrow> \<exists>s. h m = Some s"
  shows "concat (map (\<lambda>m. case h m of None \<Rightarrow> [] | Some s \<Rightarrow> [k m @ c @ s]) ms)
           = map (\<lambda>m. k m @ c @ (case h m of None \<Rightarrow> [] | Some s \<Rightarrow> s)) ms"
  using assms
proof (induction ms)
  case Nil
  show ?case by simp
next
  case (Cons m ms)
  from Cons.prems [of m] obtain s where "h m = Some s" by auto
  moreover have "concat (map (\<lambda>m. case h m of None \<Rightarrow> [] | Some s \<Rightarrow> [k m @ c @ s]) ms)
           = map (\<lambda>m. k m @ c @ (case h m of None \<Rightarrow> [] | Some s \<Rightarrow> s)) ms"
    using Cons.prems by (intro Cons.IH) simp
  ultimately show ?case by simp
qed

lemma tokens_serialize:
  assumes "json_safe rt v" and "ws_only gap" and "ws_only ind" and "boundary rest"
  shows "\<exists>s. serialize rt gap ind v = Some s
           \<and> tokens (s @ rest) = prefix_tokens (value_tokens rt v) (tokens rest)"
  using assms
proof (induction v arbitrary: ind rest)
  case JUndefined
  then show ?case by simp
next
  case JNull
  show ?case by (simp add: tokens_literal)
next
  case (JBool b)
  show ?case by (cases b) (simp_all add: tokens_literal)
next
  case (JNum n)
  then show ?case
    by (simp add: number_survives_def tokens_number)
next
  case (JStr s)
  show ?case by (simp add: tokens_quote)
next
  case (JArr xs ps)
  let ?f = "\<lambda>x. case serialize rt gap (ind @ gap) x of None \<Rightarrow> js ''null'' | Some s \<Rightarrow> s"
  have safe: "x \<in> set xs \<Longrightarrow> json_safe rt x" for x
    using JArr.prems(1) by (simp add: list_all_iff)
  have el: "tokens (?f x @ rest') = prefix_tokens (value_tokens rt x) (tokens rest')"
    if "x \<in> set xs" "boundary rest'" for x rest'
  proof -
    from JArr.IH(1) [OF that(1) safe [OF that(1)] JArr.prems(2) _ that(2), of "ind @ gap"]
    obtain s where "serialize rt gap (ind @ gap) x = Some s"
      "tokens (s @ rest') = prefix_tokens (value_tokens rt x) (tokens rest')"
      using JArr.prems(2,3) by auto
    then show ?thesis by simp
  qed
  have "tokens (bracket 0x5B 0x5D gap ind (map ?f xs) @ rest)
           = prefix_tokens (TLBracket # separated (map (value_tokens rt) xs) @ [TRBracket]) (tokens rest)"
    using el JArr.prems(2,3) by (rule tokens_bracket) (simp_all add: tokens_punct)
  then show ?case by simp
next
  case (JObj ms)
  let ?colon = "if gap = [] then [0x3A] else [0x3A, 0x20]"
  let ?f = "\<lambda>m. quote (fst m) @ ?colon
                @ (case serialize rt gap (ind @ gap) (snd m) of None \<Rightarrow> [] | Some s \<Rightarrow> s)"
  let ?g = "\<lambda>m. TString (fst m) # TColon # value_tokens rt (snd m)"
  have safe: "m \<in> set ms \<Longrightarrow> json_safe rt (snd m)" for m
    using JObj.prems(1) by (simp add: list_all_iff)
  have ser: "\<exists>s. serialize rt gap (ind @ gap) (snd m) = Some s
        \<and> tokens (s @ rest') = prefix_tokens (value_tokens rt (snd m)) (tokens rest')"
    if "m \<in> set ms" "boundary rest'" for m rest'
  proof -
    have "snd m \<in> Basic_BNFs.snds m" by (cases m) simp
    from JObj.IH [OF that(1) this safe [OF that(1)] JObj.prems(2) _ that(2), of "ind @ gap"]
    show ?thesis using JObj.prems(2,3) by auto
  qed
  have parts: "concat (map (\<lambda>m. case serialize rt gap (ind @ gap) (snd m) of
                           None \<Rightarrow> []
                         | Some s \<Rightarrow> [quote (fst m) @ ?colon @ s]) ms) = map ?f ms"
  proof (rule concat_members)
    show "\<exists>s. serialize rt gap (ind @ gap) (snd m) = Some s" if "m \<in> set ms" for m
      using ser [OF that boundary_simps(1)] by blast
  qed
  have el: "tokens (?f m @ rest') = prefix_tokens (?g m) (tokens rest')"
    if "m \<in> set ms" "boundary rest'" for m rest'
  proof -
    from ser [OF that] obtain s where s: "serialize rt gap (ind @ gap) (snd m) = Some s"
      "tokens (s @ rest') = prefix_tokens (value_tokens rt (snd m)) (tokens rest')"
      by blast
    have "tokens (?colon @ s @ rest') = cons_token TColon (tokens (s @ rest'))"
      using tokens_ws [of "[0x20]" "s @ rest'"] by (simp add: tokens_punct)
    with s show ?thesis by (simp add: tokens_quote)
  qed
  have "tokens (bracket 0x7B 0x7D gap ind (map ?f ms) @ rest)
           = prefix_tokens (TLBrace # separated (map ?g ms) @ [TRBrace]) (tokens rest)"
    using el JObj.prems(2,3) by (rule tokens_bracket) (simp_all add: tokens_punct)
  then show ?case by (simp add: parts)
qed

section \<open>Parsing what was serialized\<close>

lemma key_order_prefix: "key_order (xs @ ys) \<Longrightarrow> key_order xs"
proof (induction xs rule: key_order.induct)
  case 1
  show ?case by simp
next
  case (2 k)
  show ?case by simp
next
  case (3 k k' ks)
  then show ?case by simp
qed

lemma canonical_prefix: "canonical_keys (xs @ ys) \<Longrightarrow> canonical_keys xs"
  using key_order_prefix by (auto simp: canonical_keys_def)

lemma key_order_last_index:
  assumes "key_order (ks @ [k])" and "array_index k = Some i"
  shows "\<forall>k' \<in> set ks. \<exists>j. array_index k' = Some j \<and> j < i"
  using assms(1)
proof (induction ks)
  case Nil
  show ?case by simp
next
  case (Cons a ks)
  show ?case
  proof (cases ks)
    case Nil
    with Cons.prems assms(2) show ?thesis
      by (auto split: option.splits)
  next
    case (Cons b ks')
    from Cons.prems Cons have ab: "case array_index b of None \<Rightarrow> True
        | Some j \<Rightarrow> (case array_index a of None \<Rightarrow> False | Some i \<Rightarrow> i < j)"
      and rest: "key_order (ks @ [k])"
      by simp_all
    from Cons.IH [OF rest] have all: "\<forall>k' \<in> set ks. \<exists>j. array_index k' = Some j \<and> j < i" .
    with Cons obtain jb where "array_index b = Some jb" "jb < i" by auto
    with ab have "\<exists>j. array_index a = Some j \<and> j < i"
      by (auto split: option.splits)
    with all show ?thesis by simp
  qed
qed

lemma insert_index_last:
  "\<forall>m \<in> set ms. \<exists>j. array_index (fst m) = Some j \<and> j < i \<Longrightarrow>
     insert_index i kv ms = ms @ [kv]"
  by (induction ms) auto

lemma define_prop_append:
  assumes "canonical_keys (map fst ms @ [k])"
  shows "define_prop k v ms = ms @ [(k, v)]"
proof -
  from assms have new: "k \<notin> fst ` set ms" and ord: "key_order (map fst ms @ [k])"
    by (auto simp: canonical_keys_def)
  show ?thesis
  proof (cases "array_index k")
    case None
    with new show ?thesis by (simp add: define_prop_def)
  next
    case (Some i)
    from key_order_last_index [OF ord Some]
    have "\<forall>m \<in> set ms. \<exists>j. array_index (fst m) = Some j \<and> j < i" by simp
    then have "insert_index i (k, v) ms = ms @ [(k, v)]" by (rule insert_index_last)
    with new Some show ?thesis by (simp add: define_prop_def)
  qed
qed

lemma value_tokens_start:
  assumes "json_safe rt v"
  shows "\<exists>t ts. value_tokens rt v = t # ts \<and> t \<noteq> TRBracket"
  using assms by (cases v) auto

lemma parse_elements:
  assumes "\<And>x st s ts. x \<in> set xs \<Longrightarrow> s = WantValue \<or> s = WantValueOrClose \<Longrightarrow>
             parse_tokens rt st s (g x @ ts) = parse_tokens rt st (Have x) ts"
    and "xs \<noteq> []" and "s = WantValue \<or> s = WantValueOrClose"
  shows "parse_tokens rt (InArray acc # st) s (separated (map g xs) @ TRBracket # ts)
           = parse_tokens rt st (Have (JArr (acc @ xs) [])) ts"
  using assms
proof (induction xs arbitrary: acc s rule: induct_list012)
  case 1
  then show ?case by simp
next
  case (2 x)
  have "parse_tokens rt (InArray acc # st) s (g x @ TRBracket # ts)
          = parse_tokens rt (InArray acc # st) (Have x) (TRBracket # ts)"
    using "2.prems"(3) by (intro "2.prems"(1)) simp_all
  then show ?case by (simp add: parse_step_def)
next
  case (3 x y zs)
  have "parse_tokens rt (InArray acc # st) s (g x @ TComma # separated (map g (y # zs)) @ TRBracket # ts)
          = parse_tokens rt (InArray acc # st) (Have x) (TComma # separated (map g (y # zs)) @ TRBracket # ts)"
    using "3.prems"(3) by (intro "3.prems"(1)) simp_all
  also have "\<dots> = parse_tokens rt (InArray (acc @ [x]) # st) WantValue
                      (separated (map g (y # zs)) @ TRBracket # ts)"
    by (simp add: parse_step_def)
  also have "\<dots> = parse_tokens rt st (Have (JArr ((acc @ [x]) @ y # zs) [])) ts"
    using "3.prems"(1) by (intro "3.IH"(2)) simp_all
  finally show ?case by simp
qed

lemma parse_members:
  assumes "\<And>m st s ts. m \<in> set ms \<Longrightarrow> s = WantValue \<or> s = WantValueOrClose \<Longrightarrow>
             parse_tokens rt st s (g (snd m) @ ts) = parse_tokens rt st (Have (snd m)) ts"
    and "ms \<noteq> []" and "s = WantKeyOrClose \<or> s = WantKey"
    and "canonical_keys (map fst (acc @ ms))"
  shows "parse_tokens rt (InObject acc # st) s
           (separated (map (\<lambda>m. TString (fst m) # TColon # g (snd m)) ms) @ TRBrace # ts)
           = parse_tokens rt st (Have (JObj (acc @ ms))) ts"
  using assms
proof (induction ms arbitrary: acc s rule: induct_list012)
  case 1
  then show ?case by simp
next
  case (2 m)
  have d: "define_prop (fst m) (snd m) acc = acc @ [m]"
    using "2.prems"(4) by (intro define_prop_append [THEN trans]) simp_all
  have "parse_tokens rt (InObject acc # st) s (TString (fst m) # TColon # g (snd m) @ TRBrace # ts)
          = parse_tokens rt (InMember acc (fst m) # st) WantValue (g (snd m) @ TRBrace # ts)"
    using "2.prems"(3) by (auto simp: parse_step_def)
  also have "\<dots> = parse_tokens rt (InMember acc (fst m) # st) (Have (snd m)) (TRBrace # ts)"
    by (intro "2.prems"(1)) simp_all
  finally show ?case by (simp add: parse_step_def d)
next
  case (3 m n ms)
  have c: "canonical_keys (map fst acc @ [fst m])"
    using "3.prems"(4) canonical_prefix [of "map fst acc @ [fst m]" "map fst (n # ms)"] by simp
  have d: "define_prop (fst m) (snd m) acc = acc @ [m]"
    using c by (intro define_prop_append [THEN trans]) simp_all
  have "parse_tokens rt (InObject acc # st) s
          (TString (fst m) # TColon # g (snd m)
             @ TComma # separated (map (\<lambda>m. TString (fst m) # TColon # g (snd m)) (n # ms)) @ TRBrace # ts)
          = parse_tokens rt (InMember acc (fst m) # st) WantValue
              (g (snd m) @ TComma # separated (map (\<lambda>m. TString (fst m) # TColon # g (snd m)) (n # ms))
                 @ TRBrace # ts)"
    using "3.prems"(3) by (auto simp: parse_step_def)
  also have "\<dots> = parse_tokens rt (InMember acc (fst m) # st) (Have (snd m))
              (TComma # separated (map (\<lambda>m. TString (fst m) # TColon # g (snd m)) (n # ms))
                 @ TRBrace # ts)"
    by (intro "3.prems"(1)) simp_all
  also have "\<dots> = parse_tokens rt (InObject (acc @ [m]) # st) WantKey
              (separated (map (\<lambda>m. TString (fst m) # TColon # g (snd m)) (n # ms)) @ TRBrace # ts)"
    by (simp add: parse_step_def d)
  also have "\<dots> = parse_tokens rt st (Have (JObj ((acc @ [m]) @ n # ms))) ts"
    using "3.prems"(1,4) by (intro "3.IH"(2)) simp_all
  finally show ?case by simp
qed

lemma parse_value_tokens:
  assumes "json_safe rt v" and "s = WantValue \<or> s = WantValueOrClose"
  shows "parse_tokens rt st s (value_tokens rt v @ ts) = parse_tokens rt st (Have v) ts"
  using assms
proof (induction v arbitrary: st s ts)
  case JUndefined
  then show ?case by simp
next
  case JNull
  then show ?case by (auto simp: parse_step_def start_value_def)
next
  case (JBool b)
  then show ?case by (cases b) (auto simp: parse_step_def start_value_def)
next
  case (JNum n)
  then show ?case by (auto simp: parse_step_def start_value_def number_survives_def)
next
  case (JStr x)
  then show ?case by (auto simp: parse_step_def start_value_def)
next
  case (JArr xs ps)
  have ps: "ps = []" and safe: "\<And>x. x \<in> set xs \<Longrightarrow> json_safe rt x"
    using JArr.prems(1) by (simp_all add: list_all_iff)
  have open_: "parse_tokens rt st s (TLBracket # us) = parse_tokens rt (InArray [] # st) WantValueOrClose us" for us
    using JArr.prems(2) by (auto simp: parse_step_def start_value_def)
  have vt: "value_tokens rt (JArr xs ps) @ ts
              = TLBracket # (separated (map (value_tokens rt) xs) @ TRBracket # ts)"
    by simp
  show ?case
    unfolding vt open_
  proof (cases "xs = []")
    case True
    then show "parse_tokens rt (InArray [] # st) WantValueOrClose
                 (separated (map (value_tokens rt) xs) @ TRBracket # ts)
               = parse_tokens rt st (Have (JArr xs ps)) ts"
      by (simp add: ps parse_step_def)
  next
    case False
    have "parse_tokens rt (InArray [] # st) WantValueOrClose
            (separated (map (value_tokens rt) xs) @ TRBracket # ts)
          = parse_tokens rt st (Have (JArr ([] @ xs) [])) ts"
      using JArr.IH(1) safe False by (intro parse_elements) simp_all
    then show "parse_tokens rt (InArray [] # st) WantValueOrClose
                 (separated (map (value_tokens rt) xs) @ TRBracket # ts)
               = parse_tokens rt st (Have (JArr xs ps)) ts"
      by (simp add: ps)
  qed
next
  case (JObj ms)
  have can: "canonical_keys (map fst ms)" and safe: "\<And>m. m \<in> set ms \<Longrightarrow> json_safe rt (snd m)"
    using JObj.prems(1) by (simp_all add: list_all_iff)
  have open_: "parse_tokens rt st s (TLBrace # us) = parse_tokens rt (InObject [] # st) WantKeyOrClose us" for us
    using JObj.prems(2) by (auto simp: parse_step_def start_value_def)
  let ?ts = "separated (map (\<lambda>m. TString (fst m) # TColon # value_tokens rt (snd m)) ms) @ TRBrace # ts"
  have vt: "value_tokens rt (JObj ms) @ ts = TLBrace # ?ts"
    by simp
  show ?case
    unfolding vt open_
  proof (cases "ms = []")
    case True
    then show "parse_tokens rt (InObject [] # st) WantKeyOrClose ?ts
                 = parse_tokens rt st (Have (JObj ms)) ts"
      by (simp add: parse_step_def)
  next
    case False
    have el: "parse_tokens rt st' s' (value_tokens rt (snd m) @ ts') = parse_tokens rt st' (Have (snd m)) ts'"
      if "m \<in> set ms" "s' = WantValue \<or> s' = WantValueOrClose" for m st' s' ts'
    proof -
      have "snd m \<in> Basic_BNFs.snds m" by (cases m) simp
      from JObj.IH [OF that(1) this safe [OF that(1)] that(2)] show ?thesis .
    qed
    have "parse_tokens rt (InObject [] # st) WantKeyOrClose ?ts
          = parse_tokens rt st (Have (JObj ([] @ ms))) ts"
      using el False can by (intro parse_members) simp_all
    then show "parse_tokens rt (InObject [] # st) WantKeyOrClose ?ts
                 = parse_tokens rt st (Have (JObj ms)) ts"
      by simp
  qed
qed

text \<open>
  \<^verbatim>\<open>JSON.parse\<close> returns the value that \<^verbatim>\<open>JSON.stringify\<close> was given, for a value that
  survives serialization, whatever the indentation.
\<close>

lemma parse_stringify:
  assumes "json_safe rt v"
  shows "\<exists>s. JSON_stringify rt v n = Some s \<and> JSON_parse rt s = Inr v"
proof -
  have w: "ws_only (replicate n 0x20)"
    by (simp add: ws_only_def list_all_iff is_json_ws_def)
  from tokens_serialize [OF assms w ws_only_simps(1) boundary_simps(1)]
  obtain s where s: "serialize rt (replicate n 0x20) [] v = Some s"
    and t: "tokens s = Some (value_tokens rt v)"
    by (auto simp: prefix_tokens_def)
  have "parse_tokens rt [] WantValue (value_tokens rt v @ []) = parse_tokens rt [] (Have v) []"
    using assms by (intro parse_value_tokens) simp_all
  then have "parse_tokens rt [] WantValue (value_tokens rt v) = Some v"
    by simp
  with s t show ?thesis
    by (simp add: JSON_stringify_def JSON_parse_def)
qed

section \<open>The document with the order added\<close>

lemma array_index_name:
  "array_index (js ''orders'') = None" "array_index (js ''id'') = None"
  "array_index (js ''status'') = None"
  by (simp_all add: array_index_def js_def ch_def is_digit_def)

lemma key_order_snoc_plain: "key_order ks \<Longrightarrow> array_index k = None \<Longrightarrow> key_order (ks @ [k])"
  by (induction ks rule: key_order.induct) simp_all

lemma keys_replace_prop: "map fst (replace_prop k v ms) = map fst ms"
  by (induction ms) auto

lemma canonical_define_prop:
  assumes "canonical_keys (map fst ms)" and "array_index k = None"
  shows "canonical_keys (map fst (define_prop k v ms))"
proof (cases "k \<in> fst ` set ms")
  case True
  with assms(1) show ?thesis by (simp add: define_prop_def keys_replace_prop)
next
  case False
  with assms show ?thesis
    by (simp add: define_prop_def canonical_keys_def key_order_snoc_plain)
qed

lemma safe_replace_prop:
  "list_all (\<lambda>m. P (snd m)) ms \<Longrightarrow> P v \<Longrightarrow> list_all (\<lambda>m. P (snd m)) (replace_prop k v ms)"
  by (induction ms) auto

lemma safe_define_prop:
  assumes "list_all (\<lambda>m. P (snd m)) ms" and "P v" and "array_index k = None"
  shows "list_all (\<lambda>m. P (snd m)) (define_prop k v ms)"
  using assms by (simp add: define_prop_def safe_replace_prop)

lemma json_safe_set_prop:
  assumes "json_safe rt (JObj ms)" and "json_safe rt v" and "array_index k = None"
  shows "json_safe rt (JObj (define_prop k v ms))"
  using assms by (simp add: canonical_define_prop safe_define_prop)

lemma json_safe_lookup:
  assumes "json_safe rt (JObj ms)" and "lookup ms k \<noteq> JUndefined"
  shows "json_safe rt (lookup ms k)"
proof -
  from assms(2) obtain v where v: "map_of ms k = Some v" "lookup ms k = v"
    by (auto simp: lookup_def split: option.splits)
  then have "(k, v) \<in> set ms" by (simp add: map_of_SomeD)
  with assms(1) v show ?thesis by (auto simp: list_all_iff)
qed

lemma add_order_object:
  assumes "json_safe rt (JObj ms)" and "json_safe rt order"
  shows "\<exists>ms'. add_order (JObj ms) order = Inr (JObj ms')
           \<and> lookup ms' (js ''orders'') = JArr (order # previous_orders (JObj ms)) []
           \<and> json_safe rt (JObj ms')"
proof (cases "is_array (lookup ms (js ''orders''))")
  case True
  then obtain xs ps where old: "lookup ms (js ''orders'') = JArr xs ps"
    by (cases "lookup ms (js ''orders'')") auto
  with json_safe_lookup [OF assms(1), of "js ''orders''"]
  have s: "ps = []" "list_all (json_safe rt) xs" by simp_all
  let ?ms' = "define_prop (js ''orders'') (JArr (order # xs) []) ms"
  have "add_order (JObj ms) order = Inr (JObj ?ms')"
    using old s by (simp add: add_order_def)
  moreover have "lookup ?ms' (js ''orders'') = JArr (order # previous_orders (JObj ms)) []"
    using old by (simp add: lookup_define_prop previous_orders_def)
  moreover have "json_safe rt (JObj ?ms')"
    using assms s by (intro json_safe_set_prop array_index_name) simp_all
  ultimately show ?thesis by blast
next
  case False
  let ?ms1 = "define_prop (js ''orders'') (JArr [] []) ms"
  let ?ms' = "define_prop (js ''orders'') (JArr [order] []) ?ms1"
  have p: "previous_orders (JObj ms) = []"
    using False by (auto simp: previous_orders_def split: jsval.splits)
  have "add_order (JObj ms) order = Inr (JObj ?ms')"
    using False by (simp add: add_order_def lookup_define_prop)
  moreover have "lookup ?ms' (js ''orders'') = JArr (order # previous_orders (JObj ms)) []"
    by (simp add: lookup_define_prop p)
  moreover have "json_safe rt (JObj ?ms1)"
    using assms by (intro json_safe_set_prop array_index_name) simp_all
  then have "json_safe rt (JObj ?ms')"
    using assms by (intro json_safe_set_prop array_index_name) simp_all
  ultimately show ?thesis by blast
qed

lemma add_order_needs_object:
  assumes "add_order data order = Inr data'" and "\<not> is_array data"
  shows "\<exists>ms. data = JObj ms"
  using assms by (cases data) (auto simp: add_order_def split: if_splits sum.splits)

lemma update_document_object:
  assumes "update_document rt content order = Inr (Some nt)"
    and "JSON_parse rt content = Inr data" and "\<not> is_array data"
    and "json_safe rt data" and "json_safe rt order"
  shows "\<exists>data'. add_order data order = Inr data'
           \<and> get_prop data' (js ''orders'') = Inr (JArr (order # previous_orders data) [])
           \<and> \<not> is_array data' \<and> json_safe rt data'
           \<and> JSON_stringify rt data' 2 = Some nt \<and> JSON_parse rt nt = Inr data'"
proof -
  from assms(1,2) obtain d where d: "add_order data order = Inr d" "JSON_stringify rt d 2 = Some nt"
    by (auto simp: update_document_def split: sum.splits)
  from add_order_needs_object [OF d(1) assms(3)] obtain ms where ms: "data = JObj ms" by blast
  from add_order_object [OF assms(4) [unfolded ms] assms(5)] d(1) ms
  obtain ms' where m: "d = JObj ms'"
    "lookup ms' (js ''orders'') = JArr (order # previous_orders data) []" "json_safe rt d"
    by auto
  from parse_stringify [OF m(3), of 2] d(2) have "JSON_parse rt nt = Inr d" by auto
  with d m show ?thesis by auto
qed

text \<open>
  C9, as the code has it. Let the fetched text parse to a document that is no array,
  and let the document and the normalized order hold only values that survive
  serialization. Then the text \<^verbatim>\<open>newContent\<close> of line 104 is the serialization, with an
  indentation of 2, of the document with the order added; parsing it gives that
  document back, and the head of its \<^verbatim>\<open>orders\<close> is the normalized order itself,
  equal as a value, so field for field.
\<close>

theorem document_round_trip:
  assumes "update_document rt content order = Inr (Some newContent)"
    and "JSON_parse rt content = Inr data"
    and "\<not> is_array data"
    and "json_safe rt data"
    and "json_safe rt order"
  shows "\<exists>data' os. add_order data order = Inr data'
           \<and> JSON_stringify rt data' 2 = Some newContent
           \<and> JSON_parse rt newContent = Inr data'
           \<and> get_prop data' (js ''orders'') = Inr (JArr (order # os) [])"
  using update_document_object [OF assms] by blast

lemma example_document:
  "JSON_parse example_runtime orders_text = Inr (JObj [(js ''orders'', JArr [] [])])"
  by code_simp

lemma example_update:
  "update_document example_runtime orders_text ann
     = Inr (Some (updated_text example_runtime orders_text ann))"
  by code_simp

lemma example_safe:
  "json_safe example_runtime (JObj [(js ''orders'', JArr [] [])])" "json_safe example_runtime ann"
  by code_simp+

text \<open>
  The document \<^verbatim>\<open>[]\<close> is an array: line 102 sets \<^verbatim>\<open>orders\<close> on it as a named property,
  which \<^verbatim>\<open>JSON.stringify\<close> leaves out, so the text written is \<^verbatim>\<open>[]\<close> again and what
  is parsed from it has no \<^verbatim>\<open>orders\<close> at all.
\<close>

theorem document_round_trip_witness:
  "update_document example_runtime orders_text ann
     = Inr (Some (updated_text example_runtime orders_text ann))
   \<and> JSON_parse example_runtime orders_text = Inr (JObj [(js ''orders'', JArr [] [])])
   \<and> \<not> is_array (JObj [(js ''orders'', JArr [] [])] :: int jsval)
   \<and> json_safe example_runtime (JObj [(js ''orders'', JArr [] [])])
   \<and> json_safe example_runtime ann
   \<and> (\<exists>data' os. add_order (JObj [(js ''orders'', JArr [] [])]) ann = Inr data'
           \<and> JSON_stringify example_runtime data' 2 = Some (updated_text example_runtime orders_text ann)
           \<and> JSON_parse example_runtime (updated_text example_runtime orders_text ann) = Inr data'
           \<and> get_prop data' (js ''orders'') = Inr (JArr (ann # os) []))"
proof -
  have a: "\<not> is_array (JObj [(js ''orders'', JArr [] [])] :: int jsval)" by simp
  show ?thesis
    by (intro conjI example_update example_document a example_safe
        document_round_trip [OF example_update example_document a example_safe])
qed

theorem array_document_counterexample:
  "update_document example_runtime (js ''[]'') ann = Inr (Some (js ''[]''))
   \<and> JSON_parse example_runtime (js ''[]'') = Inr (JArr [] [])
   \<and> get_prop (JArr [] [] :: int jsval) (js ''orders'') = Inr JUndefined"
  by code_simp

section \<open>The orders of the written document\<close>

lemma handler_success:
  assumes "handler rt env fetch now req s = (Responded r, w)" and "status_code r = 200"
  shows "\<exists>g gres pr fl c content order0 order nt url sha istr.
           calls w = [(g, Fetched gres),
                      (put_request rt url (or_default (env (js ''GITHUB_TOKEN'')) []) nt
                         (js ''Add order '' @ istr) sha (target_branch env), pr)]
           \<and> fetch_method g = js ''GET''
           \<and> JSON_parse rt (res_text gres) = Inr fl
           \<and> get_prop fl (js ''content'') = Inr c \<and> base64_to_utf8 rt c = Some content
           \<and> parse_body rt (req_body req) = Inr order0 \<and> normalize_order rt now order0 = Inr order
           \<and> update_document rt content order = Inr (Some nt)"
proof -
  have nonempty: "calls w \<noteq> []"
  proof
    assume e: "calls w = []"
    from assms show False
      unfolding handler_def Let_def
      by (auto simp: json_response_def e split: sum.splits prod.splits bool.splits if_splits
          dest!: save_order_cases)
  qed
  from handler_cases [OF assms(1)] nonempty
  obtain origin order0 order r' w1 where
    b: "parse_body rt (req_body req) = Inr order0" and n: "normalize_order rt now order0 = Inr order"
    and sv: "save_order rt fetch (or_default (env (js ''GITHUB_OWNER'')) [])
                   (or_default (env (js ''GITHUB_REPO'')) []) (target_branch env)
                   (or_default (env (js ''GITHUB_TOKEN'')) []) order
                   \<lparr>calls = [], store = s, console = []\<rparr> = (r', w1)"
    and cw: "calls w = calls w1"
    and out: "Responded r = Responded (case r' of
                   Inr i \<Rightarrow> json_response 200 origin (JObj [(js ''ok'', JBool True), (js ''id'', i)])
                 | Inl err \<Rightarrow> json_response 500 origin
                                  (JObj [(js ''error'', JStr (js ''Failed to save order'')),
                                         (js ''detail'', JStr (err_message rt err))]))"
    by auto
  from out assms(2) obtain i where i: "r' = Inr i"
    by (cases r') (auto simp: json_response_def)
  from save_order_cases [OF sv] i
  obtain g gres fl c content nt sha istr url pr where
    "calls w1 = [(g, Fetched gres),
         (put_request rt url (or_default (env (js ''GITHUB_TOKEN'')) []) nt
            (js ''Add order '' @ istr) sha (target_branch env), pr)]"
    "fetch_method g = js ''GET''" "JSON_parse rt (res_text gres) = Inr fl"
    "get_prop fl (js ''content'') = Inr c" "base64_to_utf8 rt c = Some content"
    "update_document rt content order = Inr (Some nt)"
    by auto
  with b n cw show ?thesis
    by (simp only: ex_simps) blast
qed

lemma written_document:
  assumes "handler rt env fetch now req s = (Responded r, w)" and "status_code r = 200"
    and "document_read rt w = Some content"
    and "JSON_parse rt content = Inr data" and "\<not> is_array data" and "json_safe rt data"
    and "parse_body rt (req_body req) = Inr order0" and "normalize_order rt now order0 = Inr order"
    and "json_safe rt order"
  shows "\<exists>g ga url msg sha pa nt d.
           calls w = [(g, Fetched ga),
                      (put_request rt url (or_default (env (js ''GITHUB_TOKEN'')) []) nt msg sha
                         (target_branch env), pa)]
           \<and> update_document rt content order = Inr (Some nt)
           \<and> JSON_parse rt nt = Inr d \<and> \<not> is_array d \<and> json_safe rt d
           \<and> get_prop d (js ''orders'') = Inr (JArr (order # previous_orders data) [])"
proof -
  from handler_success [OF assms(1,2)]
  obtain g gres pr fl c content' order0' order' nt url sha istr where
    tr: "calls w = [(g, Fetched gres),
                      (put_request rt url (or_default (env (js ''GITHUB_TOKEN'')) []) nt
                         (js ''Add order '' @ istr) sha (target_branch env), pr)]"
    and f: "JSON_parse rt (res_text gres) = Inr fl" "get_prop fl (js ''content'') = Inr c"
      "base64_to_utf8 rt c = Some content'"
    and b: "parse_body rt (req_body req) = Inr order0'" "normalize_order rt now order0' = Inr order'"
    and u: "update_document rt content' order' = Inr (Some nt)"
    by blast
  from assms(3) tr f have c: "content' = content"
    by (simp add: document_read_def)
  from b assms(7,8) have o: "order' = order" by simp
  from update_document_object [OF u [unfolded c o] assms(4,5,6,9)]
  obtain d where "get_prop d (js ''orders'') = Inr (JArr (order # previous_orders data) [])"
    "\<not> is_array d" "json_safe rt d" "JSON_parse rt nt = Inr d"
    by blast
  with tr u c o show ?thesis by blast
qed

text \<open>
  C1, as the code has it. A request answered with 200 made two calls, the read and
  the write. Let the document it read be no array and hold, as the normalized order
  \<open>a\<close> does, only values that survive serialization. Then the text \<open>t1\<close> it wrote is
  the one of lines 101 to 104, and the \<^verbatim>\<open>orders\<close> of the document written are \<open>a\<close>
  followed by the orders of the document read, which are none when its \<^verbatim>\<open>orders\<close> is
  absent or no array. A later request answered with 200 that read \<open>t1\<close> and whose
  normalized order \<open>b\<close> holds only values that survive serialization wrote a document
  whose \<^verbatim>\<open>orders\<close> are \<open>b\<close>, then \<open>a\<close>, then the orders of the first document.
\<close>

theorem orders_newest_first:
  assumes "handler rt env fetch now req s = (Responded r, w)" and "status_code r = 200"
    and "document_read rt w = Some content"
    and "JSON_parse rt content = Inr data" and "\<not> is_array data" and "json_safe rt data"
    and "parse_body rt (req_body req) = Inr a0" and "normalize_order rt now a0 = Inr a"
    and "json_safe rt a"
  shows "\<exists>g ga url msg sha pa t1 d1.
           calls w = [(g, Fetched ga),
                      (put_request rt url (or_default (env (js ''GITHUB_TOKEN'')) []) t1 msg sha
                         (target_branch env), pa)]
           \<and> update_document rt content a = Inr (Some t1)
           \<and> JSON_parse rt t1 = Inr d1
           \<and> get_prop d1 (js ''orders'') = Inr (JArr (a # previous_orders data) [])
           \<and> (handler rt env' fetch' now' req' s' = (Responded r', w') \<and> status_code r' = 200
                \<and> document_read rt w' = Some t1
                \<and> parse_body rt (req_body req') = Inr b0 \<and> normalize_order rt now' b0 = Inr b
                \<and> json_safe rt b
              \<longrightarrow> (\<exists>g' ga' url' msg' sha' pb t2 d2.
                     calls w' = [(g', Fetched ga'),
                                 (put_request rt url' (or_default (env' (js ''GITHUB_TOKEN'')) []) t2
                                    msg' sha' (target_branch env'), pb)]
                     \<and> JSON_parse rt t2 = Inr d2
                     \<and> get_prop d2 (js ''orders'')
                         = Inr (JArr (b # a # previous_orders data) [])))"
proof -
  from written_document [OF assms]
  obtain g ga url msg sha pa t1 d1 where
    1: "calls w = [(g, Fetched ga),
                      (put_request rt url (or_default (env (js ''GITHUB_TOKEN'')) []) t1 msg sha
                         (target_branch env), pa)]"
      "JSON_parse rt t1 = Inr d1" "\<not> is_array d1" "json_safe rt d1"
      "get_prop d1 (js ''orders'') = Inr (JArr (a # previous_orders data) [])"
      "update_document rt content a = Inr (Some t1)"
    by blast
  have p: "previous_orders d1 = a # previous_orders data"
    by (simp add: previous_orders_def 1(5))
  have "\<exists>g' ga' url' msg' sha' pb t2 d2.
                     calls w' = [(g', Fetched ga'),
                                 (put_request rt url' (or_default (env' (js ''GITHUB_TOKEN'')) []) t2
                                    msg' sha' (target_branch env'), pb)]
                     \<and> JSON_parse rt t2 = Inr d2
                     \<and> get_prop d2 (js ''orders'')
                         = Inr (JArr (b # a # previous_orders data) [])"
    if 2: "handler rt env' fetch' now' req' s' = (Responded r', w')" "status_code r' = 200"
      "document_read rt w' = Some t1"
      "parse_body rt (req_body req') = Inr b0" "normalize_order rt now' b0 = Inr b"
      "json_safe rt b"
    using written_document [OF 2(1,2,3) 1(2,3,4) 2(4,5,6)] unfolding p by blast
  with 1 show ?thesis by blast
qed

lemma first_run:
  "fst (handler example_runtime example_env (fixed_store bare_file 200) 42 (post ann) ())
     = Responded (json_response 200 (js ''*'') (JObj [(js ''ok'', JBool True), (js ''id'', JStr (js ''ord-42''))]))"
  "document_read example_runtime
     (snd (handler example_runtime example_env (fixed_store bare_file 200) 42 (post ann) ()))
     = Some (js ''{}'')"
  by code_simp+

lemma second_run:
  "fst (handler example_runtime example_env (fixed_store updated_file 200) 43 (post bob) ())
     = Responded (json_response 200 (js ''*'') (JObj [(js ''ok'', JBool True), (js ''id'', JStr (js ''ord-43''))]))"
  "document_read example_runtime
     (snd (handler example_runtime example_env (fixed_store updated_file 200) 43 (post bob) ()))
     = Some (updated_text example_runtime (js ''{}'') ann_order)"
  by code_simp+

lemma example_orders:
  "JSON_parse example_runtime (js ''{}'') = Inr (JObj [])"
  "json_safe example_runtime (JObj [])"
  "parse_body example_runtime (req_body (post ann)) = Inr ann"
  "normalize_order example_runtime 42 ann = Inr ann_order"
  "json_safe example_runtime ann_order"
  "parse_body example_runtime (req_body (post bob)) = Inr bob"
  "normalize_order example_runtime 43 bob = Inr bob_order"
  "json_safe example_runtime bob_order"
  "update_document example_runtime (js ''{}'') ann_order
     = Inr (Some (updated_text example_runtime (js ''{}'') ann_order))"
  "previous_orders (JObj [] :: int jsval) = []"
  by code_simp+

theorem orders_newest_first_witness:
  "handler example_runtime example_env (fixed_store bare_file 200) 42 (post ann) ()
     = (Responded (json_response 200 (js ''*'') (JObj [(js ''ok'', JBool True), (js ''id'', JStr (js ''ord-42''))])),
        snd (handler example_runtime example_env (fixed_store bare_file 200) 42 (post ann) ()))
   \<and> status_code (json_response 200 (js ''*'')
         (JObj [(js ''ok'', JBool True), (js ''id'', JStr (js ''ord-42''))]) :: int response) = 200
   \<and> document_read example_runtime
        (snd (handler example_runtime example_env (fixed_store bare_file 200) 42 (post ann) ()))
        = Some (js ''{}'')
   \<and> JSON_parse example_runtime (js ''{}'') = Inr (JObj [])
   \<and> \<not> is_array (JObj [] :: int jsval)
   \<and> json_safe example_runtime (JObj [])
   \<and> parse_body example_runtime (req_body (post ann)) = Inr ann
   \<and> normalize_order example_runtime 42 ann = Inr ann_order
   \<and> json_safe example_runtime ann_order
   \<and> handler example_runtime example_env (fixed_store updated_file 200) 43 (post bob) ()
     = (Responded (json_response 200 (js ''*'') (JObj [(js ''ok'', JBool True), (js ''id'', JStr (js ''ord-43''))])),
        snd (handler example_runtime example_env (fixed_store updated_file 200) 43 (post bob) ()))
   \<and> status_code (json_response 200 (js ''*'')
         (JObj [(js ''ok'', JBool True), (js ''id'', JStr (js ''ord-43''))]) :: int response) = 200
   \<and> document_read example_runtime
        (snd (handler example_runtime example_env (fixed_store updated_file 200) 43 (post bob) ()))
        = Some (updated_text example_runtime (js ''{}'') ann_order)
   \<and> parse_body example_runtime (req_body (post bob)) = Inr bob
   \<and> normalize_order example_runtime 43 bob = Inr bob_order
   \<and> json_safe example_runtime bob_order
   \<and> (\<exists>d1. JSON_parse example_runtime (updated_text example_runtime (js ''{}'') ann_order) = Inr d1
           \<and> get_prop d1 (js ''orders'') = Inr (JArr [ann_order] []))
   \<and> (\<exists>g ga url msg sha pb t2 d2.
           calls (snd (handler example_runtime example_env (fixed_store updated_file 200) 43
                         (post bob) ()))
             = [(g, Fetched ga),
                (put_request example_runtime url (or_default (example_env (js ''GITHUB_TOKEN'')) [])
                   t2 msg sha (target_branch example_env), pb)]
           \<and> JSON_parse example_runtime t2 = Inr d2
           \<and> get_prop d2 (js ''orders'') = Inr (JArr [bob_order, ann_order] []))"
proof -
  let ?H1 = "handler example_runtime example_env (fixed_store bare_file 200) 42 (post ann) ()"
  let ?H2 = "handler example_runtime example_env (fixed_store updated_file 200) 43 (post bob) ()"
  let ?r1 = "json_response 200 (js ''*'') (JObj [(js ''ok'', JBool True), (js ''id'', JStr (js ''ord-42''))]) :: int response"
  let ?r2 = "json_response 200 (js ''*'') (JObj [(js ''ok'', JBool True), (js ''id'', JStr (js ''ord-43''))]) :: int response"
  let ?t1 = "updated_text example_runtime (js ''{}'') ann_order"
  have h1: "?H1 = (Responded ?r1, snd ?H1)"
    by (rule prod_eqI) (simp_all add: first_run(1))
  have h2: "?H2 = (Responded ?r2, snd ?H2)"
    by (rule prod_eqI) (simp_all add: second_run(1))
  have s1: "status_code ?r1 = 200" and s2: "status_code ?r2 = 200"
    by (simp_all add: json_response_def)
  have a: "\<not> is_array (JObj [] :: int jsval)" by simp
  note T = orders_newest_first [OF h1 s1 first_run(2) example_orders(1) a example_orders(2,3,4,5),
      of example_env "fixed_store updated_file 200" 43 "post bob" "()" ?r2 "snd ?H2" bob bob_order]
  from T obtain g ga url msg sha pa t1 d1 where
    u: "update_document example_runtime (js ''{}'') ann_order = Inr (Some t1)"
    and p: "JSON_parse example_runtime t1 = Inr d1"
      "get_prop d1 (js ''orders'') = Inr (JArr (ann_order # previous_orders (JObj [])) [])"
    and n: "?H2 = (Responded ?r2, snd ?H2) \<and> status_code ?r2 = 200
                \<and> document_read example_runtime (snd ?H2) = Some t1
                \<and> parse_body example_runtime (req_body (post bob)) = Inr bob
                \<and> normalize_order example_runtime 43 bob = Inr bob_order
                \<and> json_safe example_runtime bob_order
              \<longrightarrow> (\<exists>g' ga' url' msg' sha' pb t2 d2.
                     calls (snd ?H2) = [(g', Fetched ga'),
                                 (put_request example_runtime url'
                                    (or_default (example_env (js ''GITHUB_TOKEN'')) []) t2
                                    msg' sha' (target_branch example_env), pb)]
                     \<and> JSON_parse example_runtime t2 = Inr d2
                     \<and> get_prop d2 (js ''orders'')
                         = Inr (JArr (bob_order # ann_order # previous_orders (JObj [])) []))"
    by blast
  from u have t1: "t1 = ?t1" by (simp add: example_orders(9))
  have c1: "\<exists>d1. JSON_parse example_runtime ?t1 = Inr d1
           \<and> get_prop d1 (js ''orders'') = Inr (JArr [ann_order] [])"
    using p unfolding t1 example_orders(10) by blast
  have c2: "\<exists>g ga url msg sha pb t2 d2.
           calls (snd ?H2)
             = [(g, Fetched ga),
                (put_request example_runtime url (or_default (example_env (js ''GITHUB_TOKEN'')) [])
                   t2 msg sha (target_branch example_env), pb)]
           \<and> JSON_parse example_runtime t2 = Inr d2
           \<and> get_prop d2 (js ''orders'') = Inr (JArr [bob_order, ann_order] [])"
    using n [unfolded t1 example_orders(10)] h2 s2 second_run(2) example_orders(6,7,8)
    by blast
  show ?thesis
    by (intro conjI h1 s1 first_run(2) example_orders(1) a example_orders(2,3,4,5)
        h2 s2 second_run(2) example_orders(6,7,8) c1 c2)
qed

text \<open>
  A store whose document is the array \<^verbatim>\<open>[]\<close>: the request is answered with 200 and the
  \<^verbatim>\<open>id\<close> of the order, and the content it wrote is \<^verbatim>\<open>W10=\<close>, the document \<^verbatim>\<open>[]\<close>
  again, with no order in it.
\<close>

theorem array_store_counterexample:
  "fst (handler example_runtime example_env (fixed_store array_file 200) 42 (post ann) ())
     = Responded (json_response 200 (js ''*'')
         (JObj [(js ''ok'', JBool True), (js ''id'', JStr (js ''ord-42''))]))
   \<and> document_read example_runtime
         (snd (handler example_runtime example_env (fixed_store array_file 200) 42 (post ann) ()))
       = Some (js ''[]'')
   \<and> map (\<lambda>c. (fetch_method (fst c), body_field example_runtime (fst c) (js ''content'')))
         (calls (snd (handler example_runtime example_env (fixed_store array_file 200) 42 (post ann) ())))
       = [(js ''GET'', Inl TypeError), (js ''PUT'', Inr (JStr (js ''W10='')))]
   \<and> base64_to_utf8 example_runtime (JStr (js ''W10='')) = Some (js ''[]'')
   \<and> JSON_parse example_runtime (js ''[]'') = Inr (JArr [] [])
   \<and> get_prop (JArr [] [] :: int jsval) (js ''orders'') = Inr JUndefined"
  by code_simp

section \<open>Configuration\<close>










end
